theory Spec2Isabelle
  imports
    Complex_Main
    "HOL-Library.Sublist"
    "HOL-Library.Multiset"
    "HOL-Library.AList"
    "HOL-Library.Char_ord"
    "HOL-Library.List_Lexorder"
begin

section \<open>Lead scoring and segmentation pipeline\<close>

text \<open>
  A shallow embedding of \<^verbatim>\<open>src/config.py\<close>, \<^verbatim>\<open>src/feature_engineering.py\<close> and
  \<^verbatim>\<open>src/export_leads.py\<close>. A DataFrame is a list of rows, a row is a record with one
  field per column, and a cell that pandas may hold as NaN is an \<open>option\<close> (\<open>None\<close>
  is NaN). Python integers are \<open>int\<close>. Ratings are \<open>real\<close>: the code only
  compares them and replaces a missing one by zero. A numeric cell of the raw file is
  missing, a number, or text that is not a number. Dates are day numbers, so that
  adding \<^verbatim>\<open>timedelta(days=d)\<close> is adding \<open>d\<close>. Strings are lists of 8-bit
  characters, \<^verbatim>\<open>str.lower\<close> and \<^verbatim>\<open>str.strip\<close> are modelled on ASCII.
\<close>

subsection \<open>Configuration (config.py)\<close>

definition HIGH_DEMAND_CATEGORIES :: "string list" where
  "HIGH_DEMAND_CATEGORIES =
     [''pizza'', ''chinese'', ''mexican'', ''sushi'', ''thai'', ''indian'',
      ''italian'', ''japanese'', ''korean'', ''vietnamese'',
      ''grocery'', ''supermarket'', ''convenience'']"

text \<open>
  \<^verbatim>\<open>SCORING_WEIGHTS\<close> is a dictionary with eight fixed keys. Three of the keys are
  also column names of the frame, so the fields carry the prefix \<open>w_\<close>.
\<close>

record scoring_weights =
  w_competitor_platform :: int
  w_review_count_high :: int
  w_review_count_medium :: int
  w_review_count_low :: int
  w_high_demand_category :: int
  w_urban_location :: int
  w_high_rating :: int
  w_affordable_price :: int

definition SCORING_WEIGHTS :: scoring_weights where
  "SCORING_WEIGHTS =
     \<lparr> w_competitor_platform = 25,
       w_review_count_high = 20,
       w_review_count_medium = 15,
       w_review_count_low = 10,
       w_high_demand_category = 20,
       w_urban_location = 15,
       w_high_rating = 10,
       w_affordable_price = 10 \<rparr>"

record vertical_rule =
  min_score :: int
  target_count :: int
  sla_days :: int
  priority_categories :: "string list"

text \<open>A dictionary that is iterated is an association list in insertion order.\<close>

definition VERTICAL_RULES :: "(string \<times> vertical_rule) list" where
  "VERTICAL_RULES =
     [(''restaurants'', \<lparr> min_score = 50, target_count = 200, sla_days = 7,
          priority_categories = [''pizza'', ''chinese'', ''mexican''] \<rparr>),
      (''grocery'', \<lparr> min_score = 60, target_count = 100, sla_days = 14,
          priority_categories = [''grocery'', ''supermarket''] \<rparr>),
      (''retail'', \<lparr> min_score = 55, target_count = 150, sla_days = 10,
          priority_categories = [''retail'', ''shopping'', ''convenience''] \<rparr>)]"

subsection \<open>Rows of the frame\<close>

text \<open>
  The columns written by the collector (\<^verbatim>\<open>data_collection.py\<close>), as
  \<^verbatim>\<open>pd.read_csv\<close> returns them: an empty cell is NaN. \<open>fetched_at\<close> is the
  collection timestamp of the record, as a day number. The three numeric columns change
  their type when the frame is cleaned, so their cell types are parameters of the row.
  In the raw frame a numeric cell is NaN, a number, or text that
  \<^verbatim>\<open>astype(int)\<close> and \<^verbatim>\<open>astype(float)\<close> refuse.
\<close>

datatype 'a raw_cell = NaN | Number 'a | Text string

record ('r, 'n) business =
  place_id :: "string option"
  name :: "string option"
  phone :: "string option"
  website :: "string option"
  types :: "string option"
  source_location :: "string option"
  rating :: 'r
  review_count :: 'n
  price_level :: 'n
  fetched_at :: int

type_synonym raw_business = "(real raw_cell, real raw_cell) business"

text \<open>The cleaned frame, with the columns added by \<^verbatim>\<open>clean_data\<close>.\<close>

record cleaned = "(real option, int option) business" +
  city :: "string option"
  state :: "string option"

text \<open>Columns added by \<^verbatim>\<open>engineer_features\<close>.\<close>

record featured = cleaned +
  high_demand_category :: bool
  review_volume :: "string option"
  is_affordable :: bool
  high_rating :: bool
  urban_location :: bool
  on_ubereats :: bool
  on_grubhub :: bool
  vertical :: string

text \<open>Columns added by \<^verbatim>\<open>calculate_lead_score\<close>.\<close>

record scored = featured +
  lead_score :: int
  score_breakdown :: "(string \<times> int) list"
  priority :: "string option"
  contact_by_date :: "int option"

subsection \<open>pandas and Python primitives\<close>

text \<open>
  \<^verbatim>\<open>pd.cut(x, bins, labels)\<close> with its defaults \<^verbatim>\<open>right=True\<close> and
  \<^verbatim>\<open>include_lowest=False\<close>: the \<open>i\<close>-th label is given to the values of the
  interval \<open>(bins[i], bins[i+1]]\<close>, open on the left and closed on the right; a value
  in no interval, and NaN, become NaN. A bin edge is an integer or \<^verbatim>\<open>np.inf\<close>.
\<close>

datatype edge = Fin int | Inf

fun edge_lt :: "edge \<Rightarrow> int \<Rightarrow> bool" where
  "edge_lt (Fin b) x = (b < x)"
| "edge_lt Inf x = False"

fun le_edge :: "int \<Rightarrow> edge \<Rightarrow> bool" where
  "le_edge x (Fin b) = (x \<le> b)"
| "le_edge x Inf = True"

fun cut_value :: "int \<Rightarrow> edge list \<Rightarrow> string list \<Rightarrow> string option" where
  "cut_value x (lo # hi # bins) (l # labels) =
     (if edge_lt lo x \<and> le_edge x hi then Some l else cut_value x (hi # bins) labels)"
| "cut_value x bins labels = None"

definition pd_cut :: "int option \<Rightarrow> edge list \<Rightarrow> string list \<Rightarrow> string option" where
  "pd_cut cell bins labels =
     (case cell of None \<Rightarrow> None | Some x \<Rightarrow> cut_value x bins labels)"

text \<open>A comparison with NaN is false.\<close>

definition gt_cell :: "int option \<Rightarrow> int \<Rightarrow> bool" where
  "gt_cell cell n = (case cell of None \<Rightarrow> False | Some x \<Rightarrow> x > n)"

definition ge_cell :: "real option \<Rightarrow> real \<Rightarrow> bool" where
  "ge_cell cell r = (case cell of None \<Rightarrow> False | Some x \<Rightarrow> x \<ge> r)"

text \<open>\<^verbatim>\<open>Series.isin(values)\<close>: NaN is in no list of values.\<close>

definition isin :: "'a option \<Rightarrow> 'a list \<Rightarrow> bool" where
  "isin cell vs = (case cell of None \<Rightarrow> False | Some x \<Rightarrow> x \<in> set vs)"

text \<open>\<^verbatim>\<open>str(x)\<close> of a cell: NaN prints as \<^verbatim>\<open>nan\<close>.\<close>

definition str_cell :: "string option \<Rightarrow> string" where
  "str_cell cell = (case cell of None \<Rightarrow> ''nan'' | Some s \<Rightarrow> s)"

definition lower_char :: "char \<Rightarrow> char" where
  "lower_char c =
     (let n = (of_char c :: nat) in if 65 \<le> n \<and> n \<le> 90 then char_of (n + 32) else c)"

definition lower :: "string \<Rightarrow> string" where
  "lower s = map lower_char s"

text \<open>
  \<^verbatim>\<open>any(term in s for term in terms)\<close>; Python's \<^verbatim>\<open>in\<close> on strings is the
  contiguous-substring test, \<^const>\<open>sublist\<close>.
\<close>

definition any_in :: "string list \<Rightarrow> string \<Rightarrow> bool" where
  "any_in terms s = list_ex (\<lambda>term. sublist term s) terms"

text \<open>
  \<^verbatim>\<open>s.split(',')\<close> cuts at every separator and always returns at least one part;
  \<^verbatim>\<open>s.strip()\<close> removes the white space at both ends.
\<close>

fun split_on :: "char \<Rightarrow> string \<Rightarrow> string list" where
  "split_on sep [] = [[]]"
| "split_on sep (c # cs) =
     (if c = sep then [] # split_on sep cs
      else (case split_on sep cs of [] \<Rightarrow> [[c]] | p # ps \<Rightarrow> (c # p) # ps))"

definition is_space :: "char \<Rightarrow> bool" where
  "is_space c = (let n = (of_char c :: nat) in (9 \<le> n \<and> n \<le> 13) \<or> (28 \<le> n \<and> n \<le> 32))"

definition strip :: "string \<Rightarrow> string" where
  "strip s = rev (dropWhile is_space (rev (dropWhile is_space s)))"

datatype py_error =
  FileNotFoundError | EmptyDataError | ParserError | KeyError | AttributeError
  | ValueError | TypeError

subsection \<open>Loading (load\_latest\_raw\_data)\<close>

text \<open>
  The raw data directory is a list of the files that match \<^verbatim>\<open>businesses_*.csv\<close>,
  each with what \<^verbatim>\<open>pd.read_csv\<close> does on it: it raises (\<^verbatim>\<open>EmptyDataError\<close> for a
  file without a header line, \<^verbatim>\<open>ParserError\<close> for one it cannot parse) or it
  returns the rows, of which a file with a header line only has none. The exception of
  \<^verbatim>\<open>pd.read_csv\<close> leaves the loader as it is. \<^verbatim>\<open>max(files)\<close> is the greatest
  path in the order of strings.
\<close>

definition load_latest_raw_data ::
  "(string \<times> (py_error + raw_business list)) list \<Rightarrow> py_error + raw_business list" where
  "load_latest_raw_data files =
     (if files = [] then Inl FileNotFoundError
      else (let latest_file = fold max (map fst files) (fst (hd files))
            in case map_of files latest_file of
                 None \<Rightarrow> Inl FileNotFoundError
               | Some read_csv \<Rightarrow> read_csv))"

subsection \<open>Cleaning (clean\_data)\<close>

text \<open>
  \<^verbatim>\<open>fillna('')\<close> replaces NaN by the empty string and leaves every other cell as it
  is.
\<close>

definition fillna :: "'a \<Rightarrow> 'a option \<Rightarrow> 'a option" where
  "fillna d cell = (case cell of None \<Rightarrow> Some d | Some x \<Rightarrow> Some x)"

text \<open>
  \<^verbatim>\<open>fillna(0).astype(int)\<close> and \<^verbatim>\<open>fillna(0).astype(float)\<close> on one cell: NaN
  becomes 0, a number is kept (\<^verbatim>\<open>astype(int)\<close> cuts its fraction off, towards
  zero), and text that is not a number raises \<^verbatim>\<open>ValueError\<close>.
\<close>

definition truncate :: "real \<Rightarrow> int" where
  "truncate x = (if 0 \<le> x then \<lfloor>x\<rfloor> else \<lceil>x\<rceil>)"

fun astype_int :: "real raw_cell \<Rightarrow> py_error + int" where
  "astype_int NaN = Inr 0"
| "astype_int (Number x) = Inr (truncate x)"
| "astype_int (Text t) = Inl ValueError"

fun astype_float :: "real raw_cell \<Rightarrow> py_error + real" where
  "astype_float NaN = Inr 0"
| "astype_float (Number x) = Inr x"
| "astype_float (Text t) = Inl ValueError"

text \<open>
  The conversion of a whole column: it is done cell by cell, and the first cell that
  raises ends it.
\<close>

fun convert_column :: "('a \<Rightarrow> py_error + 'b) \<Rightarrow> 'a list \<Rightarrow> py_error + 'b list" where
  "convert_column f [] = Inr []"
| "convert_column f (c # cs) =
     (case f c of
        Inl e \<Rightarrow> Inl e
      | Inr x \<Rightarrow> (case convert_column f cs of Inl e \<Rightarrow> Inl e | Inr xs \<Rightarrow> Inr (x # xs)))"

text \<open>A cell that the conversions accept: NaN or a number.\<close>

fun numeric :: "'a raw_cell \<Rightarrow> bool" where
  "numeric (Text t) = False"
| "numeric c = True"

text \<open>
  \<^verbatim>\<open>df['source_location'].str.split(',', expand=True)\<close> is a frame with one column
  per part: as many columns as the longest row has parts. A row with fewer parts is
  padded with nulls, and a NaN row is NaN in every column. The frame has the columns
  the collector writes; a location cell that is not text is NaN to the string methods
  and is \<open>None\<close> here.
\<close>

definition location_split :: "raw_business list \<Rightarrow> string list option list" where
  "location_split df = map (\<lambda>r. map_option (split_on CHR '','') (source_location r)) df"

definition split_columns :: "string list option list \<Rightarrow> nat" where
  "split_columns parts =
     fold max (map (\<lambda>p. case p of None \<Rightarrow> 0 | Some ps \<Rightarrow> length ps) parts) 0"

text \<open>Column \<open>k\<close> of the split frame, after \<^verbatim>\<open>.str.strip()\<close>.\<close>

definition split_column :: "nat \<Rightarrow> string list option \<Rightarrow> string option" where
  "split_column k p =
     (case p of None \<Rightarrow> None
      | Some ps \<Rightarrow> if k < length ps then Some (strip (ps ! k)) else None)"

text \<open>
  One row of the cleaned frame: the columns of the raw row, with the three converted
  numeric cells, the filled phone and website, and the two new columns.
\<close>

definition clean_row :: "nat \<Rightarrow> raw_business \<Rightarrow> int \<Rightarrow> real \<Rightarrow> int \<Rightarrow> cleaned" where
  "clean_row ncols r review_count_cell rating_cell price_level_cell =
     (let p = map_option (split_on CHR '','') (source_location r)
      in \<lparr> place_id = place_id r,
           name = name r,
           phone = fillna [] (phone r),
           website = fillna [] (website r),
           types = types r,
           source_location = source_location r,
           rating = Some rating_cell,
           review_count = Some review_count_cell,
           price_level = Some price_level_cell,
           fetched_at = fetched_at r,
           city = split_column 0 p,
           state = (if ncols > 1 then split_column 1 p else Some []) \<rparr>)"

text \<open>
  The statements of \<^verbatim>\<open>clean_data\<close> in their order. The three conversions come
  first, each on a whole column, and a cell that is not a number raises
  \<^verbatim>\<open>ValueError\<close> for the frame. Then two frames make pandas raise at the split of
  the location. When every \<^verbatim>\<open>source_location\<close> is NaN and there is a row, the
  column is numeric and the \<^verbatim>\<open>.str\<close> accessor raises \<^verbatim>\<open>AttributeError\<close>. For
  a frame with no rows the split frame has no columns, and \<^verbatim>\<open>location_split[0]\<close>
  raises \<^verbatim>\<open>KeyError\<close>.
\<close>

definition clean_data :: "raw_business list \<Rightarrow> py_error + cleaned list" where
  "clean_data df =
     (case convert_column astype_int (map review_count df) of
        Inl e \<Rightarrow> Inl e
      | Inr review_counts \<Rightarrow>
     (case convert_column astype_float (map rating df) of
        Inl e \<Rightarrow> Inl e
      | Inr ratings \<Rightarrow>
     (case convert_column astype_int (map price_level df) of
        Inl e \<Rightarrow> Inl e
      | Inr price_levels \<Rightarrow>
          if list_all (\<lambda>r. source_location r = None) df
          then (if df = [] then Inl KeyError else Inl AttributeError)
          else Inr (map (\<lambda>i. clean_row (split_columns (location_split df)) (df ! i)
                              (review_counts ! i) (ratings ! i) (price_levels ! i))
                      [0..<length df]))))"

subsection \<open>Feature engineering (engineer\_features)\<close>

definition review_volume_bucket :: "int option \<Rightarrow> string option" where
  "review_volume_bucket rc =
     pd_cut rc [Fin 0, Fin 50, Fin 200, Fin 500, Inf]
       [''Very Low'', ''Low'', ''Medium'', ''High'']"

definition urban_cities :: "string list" where
  "urban_cities = [''San Francisco'', ''New York'', ''Chicago'', ''Los Angeles'', ''Seattle'']"

text \<open>The three keyword lists of \<^verbatim>\<open>classify_vertical\<close>, in the order it tests them.\<close>

definition restaurant_terms :: "string list" where
  "restaurant_terms = [''restaurant'', ''food'', ''meal_takeaway'', ''meal_delivery'', ''cafe'']"

definition grocery_terms :: "string list" where
  "grocery_terms = [''grocery'', ''supermarket'', ''store'']"

definition retail_terms :: "string list" where
  "retail_terms = [''shopping'', ''store'', ''clothing_store'', ''convenience_store'']"

definition classify_vertical :: "string option \<Rightarrow> string" where
  "classify_vertical types_str =
     (let types_lower = lower (str_cell types_str)
      in if any_in restaurant_terms types_lower then ''restaurants''
         else if any_in grocery_terms types_lower then ''grocery''
         else if any_in retail_terms types_lower then ''retail''
         else ''other'')"

text \<open>
  The competitor flags are drawn by \<^verbatim>\<open>np.random.choice\<close>; the two draws are
  parameters of the model.
\<close>

definition engineer_row :: "bool \<Rightarrow> bool \<Rightarrow> cleaned \<Rightarrow> featured" where
  "engineer_row ubereats grubhub r =
     cleaned.extend r
       (featured.fields
          (any_in HIGH_DEMAND_CATEGORIES (lower (str_cell (types r))))
          (review_volume_bucket (review_count r))
          (isin (price_level r) [0, 1, 2])
          (ge_cell (rating r) 4)
          (isin (city r) urban_cities)
          ubereats
          grubhub
          (classify_vertical (types r)))"

definition engineer_features ::
  "(nat \<Rightarrow> bool) \<Rightarrow> (nat \<Rightarrow> bool) \<Rightarrow> cleaned list \<Rightarrow> featured list" where
  "engineer_features ubereats grubhub df =
     map (\<lambda>(i, r). engineer_row (ubereats i) (grubhub i) r) (enumerate 0 df)"

subsection \<open>Scoring (calculate\_lead\_score)\<close>

text \<open>
  The body of the loop over the rows: \<open>score\<close> and \<open>breakdown\<close> are the two local
  variables, threaded through the six factors in the order of the source. An assignment
  \<^verbatim>\<open>breakdown[k] = points\<close> is \<^const>\<open>AList.update\<close>, which replaces the value of
  an existing key and appends a new key at the end, as a Python dictionary does.
\<close>

definition review_points :: "scoring_weights \<Rightarrow> int option \<Rightarrow> int" where
  "review_points w rc =
     (if gt_cell rc 500 then w_review_count_high w
      else if gt_cell rc 200 then w_review_count_medium w
      else if gt_cell rc 50 then w_review_count_low w
      else 5)"

definition add_factor ::
  "bool \<Rightarrow> string \<Rightarrow> int \<Rightarrow> int \<times> (string \<times> int) list \<Rightarrow> int \<times> (string \<times> int) list" where
  "add_factor cond key points st =
     (if cond then (fst st + points, AList.update key points (snd st)) else st)"

definition score_row ::
  "scoring_weights \<Rightarrow> 'a featured_scheme \<Rightarrow> int \<times> (string \<times> int) list" where
  "score_row w row =
     (let st = (0, []);
          st = add_factor (on_ubereats row \<or> on_grubhub row)
                 ''Competitor Platform'' (w_competitor_platform w) st;
          points = review_points w (review_count row);
          st = (fst st + points, AList.update ''Review Volume'' points (snd st));
          st = add_factor (high_demand_category row)
                 ''High Demand Category'' (w_high_demand_category w) st;
          st = add_factor (urban_location row)
                 ''Urban Location'' (w_urban_location w) st;
          st = add_factor (high_rating row)
                 ''High Rating'' (w_high_rating w) st;
          st = add_factor (is_affordable row)
                 ''Affordable Price'' (w_affordable_price w) st
      in st)"

text \<open>The priority column: \<^verbatim>\<open>pd.cut(df['lead_score'], bins=[0, 50, 70, 85, 100], ...)\<close>.\<close>

definition priority_of :: "int \<Rightarrow> string option" where
  "priority_of score =
     pd_cut (Some score) [Fin 0, Fin 50, Fin 70, Fin 85, Fin 100]
       [''Low'', ''Medium'', ''High'', ''Critical'']"

text \<open>
  \<^verbatim>\<open>get_contact_date\<close> reads the clock: \<open>now\<close> is the day of \<^verbatim>\<open>datetime.now()\<close>.
  \<^verbatim>\<open>sla_days.get(str(priority), 30)\<close> falls back to 30 for a key that is absent.
\<close>

definition sla_days_table :: "(string \<times> int) list" where
  "sla_days_table = [(''Critical'', 3), (''High'', 7), (''Medium'', 14), (''Low'', 30)]"

definition get_contact_date :: "int \<Rightarrow> string option \<Rightarrow> int" where
  "get_contact_date now prio =
     (let days = (case map_of sla_days_table (str_cell prio) of Some d \<Rightarrow> d | None \<Rightarrow> 30)
      in now + days)"

text \<open>
  The priority column is categorical, and \<^verbatim>\<open>df['priority'].apply(get_contact_date)\<close>
  calls the function on the categories only: a row whose priority is NaN has NaN as
  its contact date.
\<close>

definition score_lead :: "scoring_weights \<Rightarrow> int \<Rightarrow> featured \<Rightarrow> scored" where
  "score_lead w now row =
     (let (score, breakdown) = score_row w row;
          prio = priority_of score
      in featured.extend row
           (scored.fields score breakdown prio
              (map_option (\<lambda>p. get_contact_date now (Some p)) prio)))"

definition calculate_lead_score :: "scoring_weights \<Rightarrow> int \<Rightarrow> featured list \<Rightarrow> scored list" where
  "calculate_lead_score w now df = map (score_lead w now) df"

subsection \<open>Validation (validate\_scoring\_model)\<close>

text \<open>
  \<^verbatim>\<open>df.nlargest(10, 'lead_score')\<close>: the rows with the greatest scores in descending
  order, rows of equal score in the order of the frame.
\<close>

definition nlargest :: "nat \<Rightarrow> scored list \<Rightarrow> scored list" where
  "nlargest n df = take n (sort_key (\<lambda>l. - lead_score l) df)"

text \<open>
  The validator writes to the log and changes nothing. It raises in the loop over the
  top ten leads: \<^verbatim>\<open>len(row['name'])\<close> is a \<^verbatim>\<open>TypeError\<close> for a NaN name, and the
  format \<^verbatim>\<open>{row['city']:15s}\<close> is a \<^verbatim>\<open>ValueError\<close> for a NaN city. The result is
  the exception, if there is one.
\<close>

fun log_top_leads :: "scored list \<Rightarrow> py_error option" where
  "log_top_leads [] = None"
| "log_top_leads (row # rows) =
     (if name row = None then Some TypeError
      else if city row = None then Some ValueError
      else log_top_leads rows)"

definition validate_scoring_model :: "scored list \<Rightarrow> py_error option" where
  "validate_scoring_model df = log_top_leads (nlargest 10 df)"

subsection \<open>The feature engineering run (main)\<close>

text \<open>
  \<^verbatim>\<open>main\<close> calls the loader and then the stages in a fixed order; an exception
  leaves through the \<^verbatim>\<open>except\<close> clause, which logs and raises it again, so nothing
  after the failing call runs. The run records the stages that were entered and either
  the exception or the frame handed to \<^verbatim>\<open>save_processed_data\<close>.
\<close>

datatype stage = Cleaner | FeatureEngineer | Scorer | Validator | Saver

record run =
  stages :: "stage list"
  outcome :: "py_error + scored list"

definition main ::
  "(string \<times> (py_error + raw_business list)) list \<Rightarrow> (nat \<Rightarrow> bool) \<Rightarrow> (nat \<Rightarrow> bool)
     \<Rightarrow> int \<Rightarrow> run" where
  "main files ubereats grubhub now =
     (case load_latest_raw_data files of
        Inl e \<Rightarrow> \<lparr> stages = [], outcome = Inl e \<rparr>
      | Inr df \<Rightarrow>
          (case clean_data df of
             Inl e \<Rightarrow> \<lparr> stages = [Cleaner], outcome = Inl e \<rparr>
           | Inr df \<Rightarrow>
               (let df = engineer_features ubereats grubhub df;
                    df = calculate_lead_score SCORING_WEIGHTS now df
                in case validate_scoring_model df of
                     Some e \<Rightarrow>
                       \<lparr> stages = [Cleaner, FeatureEngineer, Scorer, Validator],
                         outcome = Inl e \<rparr>
                   | None \<Rightarrow>
                       \<lparr> stages = [Cleaner, FeatureEngineer, Scorer, Validator, Saver],
                         outcome = Inr df \<rparr>)))"

subsection \<open>Segmentation (export\_leads.apply\_vertical\_filters)\<close>

text \<open>
  \<^verbatim>\<open>DataFrame.head(n)\<close>: the first \<open>n\<close> rows, and for a negative \<open>n\<close> all rows
  but the last \<open>-n\<close>.
\<close>

definition head :: "int \<Rightarrow> 'a list \<Rightarrow> 'a list" where
  "head n xs = (if 0 \<le> n then take (nat n) xs else take (length xs - nat (- n)) xs)"

text \<open>
  \<^verbatim>\<open>sort_values('lead_score', ascending=False)\<close> uses the default sorting kind of
  pandas, which fixes the order of the scores and not the order of rows with equal
  scores. The sort is therefore a parameter \<open>sort_values\<close> of the model, and the
  theorems state what they need of it. The loop over the rules threads the result
  dictionary \<open>vertical_dfs\<close>.
\<close>

fun filter_loop ::
  "(scored list \<Rightarrow> scored list) \<Rightarrow> (string \<times> vertical_rule) list \<Rightarrow> scored list \<Rightarrow>
   (string \<times> scored list) list \<Rightarrow> (string \<times> scored list) list" where
  "filter_loop sort_values [] df vertical_dfs = vertical_dfs"
| "filter_loop sort_values ((v, rules) # rest) df vertical_dfs =
     (let df_vertical = filter (\<lambda>l. vertical l = v) df
      in if length df_vertical = 0 then filter_loop sort_values rest df vertical_dfs
         else (let df_filtered = filter (\<lambda>l. lead_score l \<ge> min_score rules) df_vertical;
                   df_filtered = sort_values df_filtered;
                   df_filtered = head (target_count rules) df_filtered
               in filter_loop sort_values rest df (AList.update v df_filtered vertical_dfs)))"

definition apply_vertical_filters ::
  "(scored list \<Rightarrow> scored list) \<Rightarrow> (string \<times> vertical_rule) list \<Rightarrow> scored list \<Rightarrow>
   (string \<times> scored list) list" where
  "apply_vertical_filters sort_values rules df = filter_loop sort_values rules df []"

text \<open>The frames of a result, one after the other, as \<^verbatim>\<open>pd.concat\<close> joins them.\<close>

definition flatten :: "(string \<times> scored list) list \<Rightarrow> scored list" where
  "flatten vertical_dfs = concat (map snd vertical_dfs)"

text \<open>A stable sort by descending score, one sort that meets the contract.\<close>

definition stable_sort_values :: "scored list \<Rightarrow> scored list" where
  "stable_sort_values df = sort_key (\<lambda>l. - lead_score l) df"

text \<open>What one pass of the loop contributes for one rule, used to describe the result.\<close>

definition vertical_frame ::
  "(scored list \<Rightarrow> scored list) \<Rightarrow> scored list \<Rightarrow> string \<times> vertical_rule \<Rightarrow>
   (string \<times> scored list) option" where
  "vertical_frame sort_values df vr =
     (if filter (\<lambda>l. vertical l = fst vr) df = [] then None
      else Some (fst vr,
             head (target_count (snd vr))
               (sort_values (filter (\<lambda>l. lead_score l \<ge> min_score (snd vr))
                  (filter (\<lambda>l. vertical l = fst vr) df)))))"

subsection \<open>Example rows\<close>

definition raw_example :: raw_business where
  "raw_example =
     \<lparr> place_id = None, name = Some ''Corner Pizza'', phone = None, website = None,
       types = Some ''restaurant,food'', source_location = Some ''San Francisco, CA'',
       rating = NaN, review_count = NaN, price_level = NaN, fetched_at = 0 \<rparr>"

definition text_example :: raw_business where
  "text_example = raw_example \<lparr> place_id := Some ''p2'', review_count := Text ''many'' \<rparr>"

definition lead_example :: featured where
  "lead_example =
     \<lparr> place_id = Some ''p1'', name = Some ''Corner Pizza'', phone = Some [],
       website = Some [], types = Some ''pizza_restaurant'',
       source_location = Some ''San Francisco, CA'', rating = Some 4.5,
       review_count = Some 600, price_level = Some 1, fetched_at = 0,
       city = Some ''San Francisco'', state = Some ''CA'',
       high_demand_category = True, review_volume = Some ''High'', is_affordable = True,
       high_rating = True, urban_location = True, on_ubereats = True, on_grubhub = False,
       vertical = ''restaurants'' \<rparr>"

text \<open>Two fixed draws of the competitor flags.\<close>

definition always :: "nat \<Rightarrow> bool" where
  "always i = True"

definition never :: "nat \<Rightarrow> bool" where
  "never i = False"

definition plain_example :: featured where
  "plain_example =
     lead_example \<lparr> high_demand_category := False, is_affordable := False,
       high_rating := False, urban_location := False, on_ubereats := False,
       vertical := ''grocery'' \<rparr>"

section \<open>Properties\<close>

subsection \<open>The score and its breakdown\<close>

lemma update_fresh: "k \<notin> fst ` set al \<Longrightarrow> AList.update k v al = al @ [(k, v)]"
  by (induction al) auto

lemma add_factor_fresh:
  "k \<notin> fst ` set (snd st) \<Longrightarrow>
   add_factor c k p st = (fst st + (if c then p else 0), snd st @ (if c then [(k, p)] else []))"
  by (simp add: add_factor_def update_fresh)

lemma factor_chain:
  assumes "distinct [k1, k2, k3, k4, k5, k6]"
  shows "add_factor c6 k6 p6 (add_factor c5 k5 p5 (add_factor c4 k4 p4 (add_factor c3 k3 p3
           (fst (add_factor c1 k1 p1 (0, [])) + p2,
            AList.update k2 p2 (snd (add_factor c1 k1 p1 (0, []))))))) =
         ((if c1 then p1 else 0) + p2 + (if c3 then p3 else 0) + (if c4 then p4 else 0)
            + (if c5 then p5 else 0) + (if c6 then p6 else 0),
          (if c1 then [(k1, p1)] else []) @ [(k2, p2)] @ (if c3 then [(k3, p3)] else [])
            @ (if c4 then [(k4, p4)] else []) @ (if c5 then [(k5, p5)] else [])
            @ (if c6 then [(k6, p6)] else []))"
proof -
  have k: "k1 \<noteq> k2" "k1 \<noteq> k3" "k1 \<noteq> k4" "k1 \<noteq> k5" "k1 \<noteq> k6" "k2 \<noteq> k3"
    "k2 \<noteq> k4" "k2 \<noteq> k5" "k2 \<noteq> k6" "k3 \<noteq> k4" "k3 \<noteq> k5" "k3 \<noteq> k6" "k4 \<noteq> k5"
    "k4 \<noteq> k6" "k5 \<noteq> k6"
    using assms by auto
  let ?b1 = "if c1 then [(k1, p1)] else []"
  let ?b3 = "?b1 @ [(k2, p2)] @ (if c3 then [(k3, p3)] else [])"
  let ?b4 = "?b3 @ (if c4 then [(k4, p4)] else [])"
  let ?b5 = "?b4 @ (if c5 then [(k5, p5)] else [])"
  have s1: "add_factor c1 k1 p1 (0, []) = ((if c1 then p1 else 0), ?b1)"
    by (simp add: add_factor_def)
  have u2: "AList.update k2 p2 ?b1 = ?b1 @ [(k2, p2)]"
    using k by (intro update_fresh) auto
  have s3: "add_factor c3 k3 p3 (x, ?b1 @ [(k2, p2)]) = (x + (if c3 then p3 else 0), ?b3)" for x
    using k by (subst add_factor_fresh) auto
  have s4: "add_factor c4 k4 p4 (x, ?b3) = (x + (if c4 then p4 else 0), ?b4)" for x
    using k by (subst add_factor_fresh) auto
  have s5: "add_factor c5 k5 p5 (x, ?b4) = (x + (if c5 then p5 else 0), ?b5)" for x
    using k by (subst add_factor_fresh) auto
  have s6: "add_factor c6 k6 p6 (x, ?b5) =
      (x + (if c6 then p6 else 0), ?b5 @ (if c6 then [(k6, p6)] else []))" for x
    using k by (subst add_factor_fresh) auto
  show ?thesis
    unfolding s1 fst_conv snd_conv u2 s3 s4 s5 s6 by simp
qed

lemma factor_chain_keys:
  assumes "distinct [k1, k2, k3, k4, k5, k6 :: string]"
  shows "distinct (map fst ((if c1 then [(k1, p1 :: int)] else []) @ [(k2, p2)]
            @ (if c3 then [(k3, p3)] else [])
            @ (if c4 then [(k4, p4)] else []) @ (if c5 then [(k5, p5)] else [])
            @ (if c6 then [(k6, p6)] else [])))"
    and "map_of ((if c1 then [(k1, p1 :: int)] else []) @ [(k2, p2)]
            @ (if c3 then [(k3, p3)] else [])
            @ (if c4 then [(k4, p4)] else []) @ (if c5 then [(k5, p5)] else [])
            @ (if c6 then [(k6, p6)] else [])) k2 = Some p2"
  using assms by auto

lemma factor_names_distinct:
  "distinct [''Competitor Platform'', ''Review Volume'', ''High Demand Category'',
     ''Urban Location'', ''High Rating'', ''Affordable Price'']"
  by code_simp

lemma score_row_eq:
  "score_row w row =
     ((if on_ubereats row \<or> on_grubhub row then w_competitor_platform w else 0)
        + review_points w (review_count row)
        + (if high_demand_category row then w_high_demand_category w else 0)
        + (if urban_location row then w_urban_location w else 0)
        + (if high_rating row then w_high_rating w else 0)
        + (if is_affordable row then w_affordable_price w else 0),
      (if on_ubereats row \<or> on_grubhub row
         then [(''Competitor Platform'', w_competitor_platform w)] else [])
        @ [(''Review Volume'', review_points w (review_count row))]
        @ (if high_demand_category row
             then [(''High Demand Category'', w_high_demand_category w)] else [])
        @ (if urban_location row then [(''Urban Location'', w_urban_location w)] else [])
        @ (if high_rating row then [(''High Rating'', w_high_rating w)] else [])
        @ (if is_affordable row then [(''Affordable Price'', w_affordable_price w)] else []))"
  unfolding score_row_def Let_def
  by (rule factor_chain [OF factor_names_distinct])

lemma score_row_sum: "fst (score_row w row) = sum_list (map snd (snd (score_row w row)))"
  unfolding score_row_eq by simp

lemma score_row_distinct: "distinct (map fst (snd (score_row w row)))"
  unfolding score_row_eq snd_conv by (rule factor_chain_keys(1) [OF factor_names_distinct])

lemma score_row_review: "map_of (snd (score_row w row)) ''Review Volume''
       = Some (review_points w (review_count row))"
  unfolding score_row_eq snd_conv by (rule factor_chain_keys(2) [OF factor_names_distinct])

lemma score_lead_fields:
  "lead_score (score_lead w now row) = fst (score_row w row)"
  "score_breakdown (score_lead w now row) = snd (score_row w row)"
  "priority (score_lead w now row) = priority_of (fst (score_row w row))"
  "contact_by_date (score_lead w now row) =
     map_option (\<lambda>p. get_contact_date now (Some p)) (priority_of (fst (score_row w row)))"
  by (simp_all add: score_lead_def Let_def split_beta featured.defs scored.defs)

lemma review_points_shipped:
  "5 \<le> review_points SCORING_WEIGHTS rc" "review_points SCORING_WEIGHTS rc \<le> 20"
  by (simp_all add: review_points_def SCORING_WEIGHTS_def)

lemma lead_example_over:
  "fst (score_row (SCORING_WEIGHTS\<lparr>w_competitor_platform := 40\<rparr>) lead_example) = 115"
  by (simp add: score_row_eq review_points_def gt_cell_def SCORING_WEIGHTS_def lead_example_def)

text \<open>
  Claim C1. For every row and every weight configuration, the lead score is the sum of
  the values of its score breakdown. The breakdown holds, in the order of the factors,
  one entry for each factor whose condition held and no other entry; Review Volume is
  always there, with the weight of the first threshold the review count exceeds or the
  flat 5. The keys are pairwise different. The total is not clamped: with the competitor
  weight raised to 40 the example lead scores 115.
\<close>

theorem lead_score_is_sum_of_breakdown:
  "lead_score (score_lead w now row) = sum_list (map snd (score_breakdown (score_lead w now row)))
   \<and> score_breakdown (score_lead w now row) =
       (if on_ubereats row \<or> on_grubhub row
          then [(''Competitor Platform'', w_competitor_platform w)] else [])
        @ [(''Review Volume'',
            if gt_cell (review_count row) 500 then w_review_count_high w
            else if gt_cell (review_count row) 200 then w_review_count_medium w
            else if gt_cell (review_count row) 50 then w_review_count_low w
            else 5)]
        @ (if high_demand_category row
             then [(''High Demand Category'', w_high_demand_category w)] else [])
        @ (if urban_location row then [(''Urban Location'', w_urban_location w)] else [])
        @ (if high_rating row then [(''High Rating'', w_high_rating w)] else [])
        @ (if is_affordable row then [(''Affordable Price'', w_affordable_price w)] else [])
   \<and> distinct (map fst (score_breakdown (score_lead w now row)))
   \<and> lead_score (score_lead (SCORING_WEIGHTS\<lparr>w_competitor_platform := 40\<rparr>) now lead_example)
       = 115"
proof -
  have "snd (score_row w row) =
       (if on_ubereats row \<or> on_grubhub row
          then [(''Competitor Platform'', w_competitor_platform w)] else [])
        @ [(''Review Volume'',
            if gt_cell (review_count row) 500 then w_review_count_high w
            else if gt_cell (review_count row) 200 then w_review_count_medium w
            else if gt_cell (review_count row) 50 then w_review_count_low w
            else 5)]
        @ (if high_demand_category row
             then [(''High Demand Category'', w_high_demand_category w)] else [])
        @ (if urban_location row then [(''Urban Location'', w_urban_location w)] else [])
        @ (if high_rating row then [(''High Rating'', w_high_rating w)] else [])
        @ (if is_affordable row then [(''Affordable Price'', w_affordable_price w)] else [])"
    unfolding score_row_eq snd_conv review_points_def by (rule refl)
  then show ?thesis
    unfolding score_lead_fields
    using score_row_sum [of w row] score_row_distinct [of w row] lead_example_over
    by blast
qed

text \<open>
  Claim C10. Under the shipped weights the Review Volume factor contributes at least 5
  points to every row, it is an entry of every breakdown, and every lead score lies
  between 5 and 100; a score of 0 does not occur.
\<close>

theorem shipped_weights_score_bounds:
  "5 \<le> review_points SCORING_WEIGHTS (review_count row)
   \<and> map_of (score_breakdown (score_lead SCORING_WEIGHTS now row)) ''Review Volume''
       = Some (review_points SCORING_WEIGHTS (review_count row))
   \<and> 5 \<le> lead_score (score_lead SCORING_WEIGHTS now row)
   \<and> lead_score (score_lead SCORING_WEIGHTS now row) \<le> 100
   \<and> lead_score (score_lead SCORING_WEIGHTS now row) \<noteq> 0"
proof -
  have s: "5 \<le> fst (score_row SCORING_WEIGHTS row)" "fst (score_row SCORING_WEIGHTS row) \<le> 100"
    using review_points_shipped [of "review_count row"]
    by (simp_all add: score_row_eq SCORING_WEIGHTS_def)
  show ?thesis
    unfolding score_lead_fields
    using review_points_shipped(1) [of "review_count row"]
      score_row_review [of SCORING_WEIGHTS row] s
    by simp
qed

subsection \<open>Priority tiers\<close>

lemma priority_of_bins:
  "0 < s \<Longrightarrow> s \<le> 100 \<Longrightarrow>
   priority_of s = Some (if s \<le> 50 then ''Low'' else if s \<le> 70 then ''Medium''
                         else if s \<le> 85 then ''High'' else ''Critical'')"
  by (simp add: priority_of_def pd_cut_def)

lemma priority_of_outside: "s \<le> 0 \<or> 100 < s \<Longrightarrow> priority_of s = None"
  by (auto simp add: priority_of_def pd_cut_def)

lemma plain_example_zero:
  "fst (score_row (SCORING_WEIGHTS\<lparr>w_review_count_high := 0\<rparr>) plain_example) = 0"
  by (simp add: score_row_eq review_points_def gt_cell_def SCORING_WEIGHTS_def
      plain_example_def lead_example_def)

text \<open>
  Claim C2, as amended. The priority of a lead is a function of its score alone. For a
  score above 0 and at most 100 the tier is Low on (0,50], Medium on (50,70], High on
  (70,85] and Critical on (85,100]; 50 is Low and 51 is Medium.
\<close>

theorem priority_is_binned_score:
  assumes "0 < s" and "s \<le> 100"
  shows "priority_of s = Some (if s \<le> 50 then ''Low'' else if s \<le> 70 then ''Medium''
                         else if s \<le> 85 then ''High'' else ''Critical'')
     \<and> priority (score_lead w now row) = priority_of (lead_score (score_lead w now row))
     \<and> priority_of 50 = Some ''Low'' \<and> priority_of 51 = Some ''Medium''"
  using priority_of_bins [OF assms] priority_of_bins [of 50] priority_of_bins [of 51]
  unfolding score_lead_fields by simp

theorem priority_is_binned_score_witness:
  "priority_of 70 = Some ''Medium''
   \<and> priority (score_lead SCORING_WEIGHTS 0 lead_example)
       = priority_of (lead_score (score_lead SCORING_WEIGHTS 0 lead_example))"
  using priority_is_binned_score [of 70 SCORING_WEIGHTS 0 lead_example] by simp

text \<open>
  The claim as stated puts a score of exactly 0 in Low. The lowest bin is open at 0, so
  \<^verbatim>\<open>pd.cut\<close> gives a score of 0 no tier: a lead with more than 500 reviews and no
  other factor, scored with a high-review weight of 0, has score 0 and priority NaN.
\<close>

theorem score_zero_has_no_priority:
  "priority_of 0 = None
   \<and> lead_score (score_lead (SCORING_WEIGHTS\<lparr>w_review_count_high := 0\<rparr>) 0 plain_example) = 0
   \<and> priority (score_lead (SCORING_WEIGHTS\<lparr>w_review_count_high := 0\<rparr>) 0 plain_example) = None"
  unfolding score_lead_fields plain_example_zero
  by (simp add: priority_of_outside)

subsection \<open>Contact date\<close>

lemma sla_lookup:
  "map_of sla_days_table ''Critical'' = Some 3"
  "map_of sla_days_table ''High'' = Some 7"
  "map_of sla_days_table ''Medium'' = Some 14"
  "map_of sla_days_table ''Low'' = Some 30"
  "map_of sla_days_table ''nan'' = None"
  by code_simp+

lemma get_contact_date_cases:
  "get_contact_date now (Some ''Critical'') = now + 3"
  "get_contact_date now (Some ''High'') = now + 7"
  "get_contact_date now (Some ''Medium'') = now + 14"
  "get_contact_date now (Some ''Low'') = now + 30"
  "get_contact_date now None = now + 30"
  unfolding get_contact_date_def str_cell_def Let_def option.case sla_lookup by simp_all

lemma score_row_fetched_at: "score_row w (row\<lparr>fetched_at := t\<rparr>) = score_row w row"
  by (simp add: score_row_def)

lemma lead_example_score: "fst (score_row SCORING_WEIGHTS lead_example) = 100"
  by (simp add: score_row_eq review_points_def gt_cell_def SCORING_WEIGHTS_def lead_example_def)

lemma fetched_at_score_lead: "fetched_at (score_lead w now row) = fetched_at row"
  by (simp add: score_lead_def Let_def split_beta featured.defs scored.defs)

lemma chain_value: "(if a then x else if b then y else if c then z else w) \<in> set [x, y, z, w]"
  by simp

lemma priority_of_labels:
  assumes "priority_of s = Some p"
  shows "p \<in> set [''Low'', ''Medium'', ''High'', ''Critical'']"
proof (cases "0 < s \<and> s \<le> 100")
  case True
  then have lo: "0 < s" and hi: "s \<le> 100"
    by simp_all
  have "Some p = Some (if s \<le> 50 then ''Low'' else if s \<le> 70 then ''Medium''
                         else if s \<le> 85 then ''High'' else ''Critical'')"
    unfolding assms [symmetric] by (rule priority_of_bins [OF lo hi])
  then have p: "p = (if s \<le> 50 then ''Low'' else if s \<le> 70 then ''Medium''
                         else if s \<le> 85 then ''High'' else ''Critical'')"
    by (rule option.inject [THEN iffD1])
  show ?thesis
    unfolding p by (rule chain_value)
next
  case False
  then have "s \<le> 0 \<or> 100 < s"
    by arith
  then have "priority_of s = None"
    by (rule priority_of_outside)
  then have "Some p = None"
    unfolding assms [symmetric] .
  then show ?thesis
    by (rule option.distinct(2) [THEN notE])
qed

text \<open>
  Claim C4, as amended. The contact date of a lead that has a priority is the day on
  which the scorer runs (\<^verbatim>\<open>datetime.now()\<close>) plus an offset that depends on the
  priority alone: 3 days for Critical, 7 for High, 14 for Medium, 30 for Low. The
  collection timestamp of the record has no influence on it.
\<close>

theorem contact_date_is_run_date_plus_sla:
  assumes "priority (score_lead w now row) = Some p"
  shows "contact_by_date (score_lead w now row) = Some (get_contact_date now (Some p))
   \<and> p \<in> set [''Low'', ''Medium'', ''High'', ''Critical'']
   \<and> get_contact_date now (Some ''Critical'') = now + 3
   \<and> get_contact_date now (Some ''High'') = now + 7
   \<and> get_contact_date now (Some ''Medium'') = now + 14
   \<and> get_contact_date now (Some ''Low'') = now + 30
   \<and> contact_by_date (score_lead w now (row\<lparr>fetched_at := t\<rparr>))
       = contact_by_date (score_lead w now row)"
proof -
  have p: "priority_of (fst (score_row w row)) = Some p"
    using assms unfolding score_lead_fields .
  have a: "contact_by_date (score_lead w now row) = Some (get_contact_date now (Some p))"
    unfolding score_lead_fields p by simp
  have b: "contact_by_date (score_lead w now (row\<lparr>fetched_at := t\<rparr>))
       = contact_by_date (score_lead w now row)"
    unfolding score_lead_fields score_row_fetched_at by (rule refl)
  show ?thesis
    using a b priority_of_labels [OF p] get_contact_date_cases(1-4) [of now]
    by (intro conjI)
qed

lemma lead_example_priority: "priority_of (fst (score_row SCORING_WEIGHTS lead_example)) = Some ''Critical''"
  unfolding lead_example_score using priority_of_bins [of 100] by simp

theorem contact_date_is_run_date_plus_sla_witness:
  "priority (score_lead SCORING_WEIGHTS 10 lead_example) = Some ''Critical''
   \<and> contact_by_date (score_lead SCORING_WEIGHTS 10 lead_example) = Some 13"
proof -
  have h: "priority (score_lead SCORING_WEIGHTS 10 lead_example) = Some ''Critical''"
    unfolding score_lead_fields by (rule lead_example_priority)
  have "contact_by_date (score_lead SCORING_WEIGHTS 10 lead_example)
      = Some (get_contact_date 10 (Some ''Critical''))"
    using contact_date_is_run_date_plus_sla [OF h] by (rule conjunct1)
  then show ?thesis
    using h unfolding get_contact_date_cases by simp
qed

text \<open>
  The claim as stated counts the offset from the collection timestamp. A Critical lead
  collected on day 0 and scored on day 10 is to be contacted by day 13, not by day 3.
\<close>

theorem contact_date_ignores_collection_date:
  "fetched_at (score_lead SCORING_WEIGHTS 10 lead_example) = 0
   \<and> priority (score_lead SCORING_WEIGHTS 10 lead_example) = Some ''Critical''
   \<and> contact_by_date (score_lead SCORING_WEIGHTS 10 lead_example) = Some 13
   \<and> contact_by_date (score_lead SCORING_WEIGHTS 10 lead_example)
       \<noteq> Some (fetched_at (score_lead SCORING_WEIGHTS 10 lead_example) + 3)"
proof -
  have f: "fetched_at lead_example = 0"
    by (simp add: lead_example_def)
  have c: "get_contact_date 10 (Some ''Critical'') = 13"
    unfolding get_contact_date_cases by simp
  show ?thesis
    unfolding score_lead_fields fetched_at_score_lead lead_example_priority f
      option.map c
    by simp
qed

subsection \<open>Review volume\<close>

lemma review_volume_bucket_bins:
  "0 < n \<Longrightarrow>
   review_volume_bucket (Some n) =
     Some (if n \<le> 50 then ''Very Low'' else if n \<le> 200 then ''Low''
           else if n \<le> 500 then ''Medium'' else ''High'')"
  by (simp add: review_volume_bucket_def pd_cut_def)

lemma review_points_bins:
  "review_points w (Some n) =
     (if n \<le> 50 then 5 else if n \<le> 200 then w_review_count_low w
      else if n \<le> 500 then w_review_count_medium w else w_review_count_high w)"
  by (simp add: review_points_def gt_cell_def)

lemma engineer_row_fields:
  "review_volume (engineer_row u g r) = review_volume_bucket (review_count r)"
  "vertical (engineer_row u g r) = classify_vertical (types r)"
  "review_count (engineer_row u g r) = review_count r"
  by (simp_all add: engineer_row_def cleaned.defs featured.defs)

text \<open>
  Claim C3, as amended. For a review count of at least 1 the review volume feature
  partitions the counts into the intervals Very Low (0,50], Low (50,200], Medium
  (200,500] and High (500,\<open>\<infinity>\<close>), open on the left and closed on the right, so each
  boundary value 50, 200, 500 belongs to the lower bucket. The Review Volume factor of
  the scorer uses the same edges.
\<close>

theorem review_volume_is_right_closed:
  assumes "0 < n"
  shows "review_volume_bucket (Some n) =
     Some (if n \<le> 50 then ''Very Low'' else if n \<le> 200 then ''Low''
           else if n \<le> 500 then ''Medium'' else ''High'')
   \<and> review_volume_bucket (Some 50) = Some ''Very Low''
   \<and> review_volume_bucket (Some 200) = Some ''Low''
   \<and> review_volume_bucket (Some 500) = Some ''Medium''
   \<and> review_volume (engineer_row u g r) = review_volume_bucket (review_count r)
   \<and> review_points w (Some n) =
     (if n \<le> 50 then 5 else if n \<le> 200 then w_review_count_low w
      else if n \<le> 500 then w_review_count_medium w else w_review_count_high w)"
  using review_volume_bucket_bins [OF assms] review_volume_bucket_bins [of 50]
    review_volume_bucket_bins [of 200] review_volume_bucket_bins [of 500]
    review_points_bins [of w n]
  unfolding engineer_row_fields by simp

theorem review_volume_is_right_closed_witness:
  "review_volume_bucket (Some 201) = Some ''Medium''
   \<and> review_points SCORING_WEIGHTS (Some 201) = 15"
  using review_volume_is_right_closed
      [of 201 True False "clean_row 2 raw_example 0 0 0" SCORING_WEIGHTS]
  by (simp add: SCORING_WEIGHTS_def)

lemma label_neq: "''Very Low'' \<noteq> ''Low''"
  by code_simp

text \<open>
  The claim as stated puts each boundary value in the higher bucket. A review count of
  50 is in Very Low, not in Low.
\<close>

theorem boundary_in_lower_bucket:
  "review_volume_bucket (Some 50) = Some ''Very Low''
   \<and> review_volume_bucket (Some 50) \<noteq> Some ''Low''"
  using review_volume_bucket_bins [of 50] label_neq by simp

subsection \<open>Vertical classification\<close>

lemma first_match:
  assumes "distinct [a, b, c, d]"
  shows "((if R then a else if G then b else if T then c else d) = a) = R"
    and "((if R then a else if G then b else if T then c else d) = b) = (\<not> R \<and> G)"
    and "((if R then a else if G then b else if T then c else d) = c) = (\<not> R \<and> \<not> G \<and> T)"
    and "((if R then a else if G then b else if T then c else d) = d) = (\<not> R \<and> \<not> G \<and> \<not> T)"
    and "(if R then a else if G then b else if T then c else d) \<in> set [a, b, c, d]"
  using assms by auto

lemma vertical_names_distinct: "distinct [''restaurants'', ''grocery'', ''retail'', ''other'']"
  by code_simp

lemma store_in_terms:
  "sublist ''store'' ''clothing_store''" "sublist ''store'' ''convenience_store''"
  by code_simp+

lemma overlap_terms:
  assumes "sublist st cs" and "sublist st vs"
  shows "(\<not> any_in [g, m, st] s \<and> any_in [sh, st, cs, vs] s)
     = (\<not> any_in [g, m, st] s \<and> sublist sh s)"
proof -
  have "sublist cs s \<Longrightarrow> sublist st s"
    using assms(1) sublist_order.order_trans by blast
  moreover have "sublist vs s \<Longrightarrow> sublist st s"
    using assms(2) sublist_order.order_trans by blast
  ultimately show ?thesis
    unfolding any_in_def list_ex_Cons_iff list_ex_Nil_iff by blast
qed

lemma retail_after_grocery:
  "(\<not> any_in grocery_terms s \<and> any_in retail_terms s)
     = (\<not> any_in grocery_terms s \<and> sublist ''shopping'' s)"
  unfolding grocery_terms_def retail_terms_def
  by (rule overlap_terms [OF store_in_terms])

lemma classify_examples:
  "classify_vertical (Some ''clothing_store'') = ''grocery''"
  "classify_vertical (Some ''convenience_store'') = ''grocery''"
  "classify_vertical (Some ''shopping_mall'') = ''retail''"
  "classify_vertical (Some ''Grocery_Store,Food'') = ''restaurants''"
  "classify_vertical None = ''other''"
  by code_simp+

text \<open>
  Claim C5. The vertical is a total function of the category tags with one of four
  values. It is restaurants exactly when a restaurant keyword occurs in the lowered
  tags, grocery exactly when none does and a grocery keyword occurs, retail exactly when
  neither does and a retail keyword occurs, and other exactly when no keyword occurs.
  The order decides the overlap: a tag with \<^verbatim>\<open>store\<close> in it is taken by the grocery
  rule, so retail is reached through \<^verbatim>\<open>shopping\<close> only.
\<close>

theorem vertical_is_first_match:
  "classify_vertical t \<in> set [''restaurants'', ''grocery'', ''retail'', ''other'']
   \<and> (classify_vertical t = ''restaurants'')
       = any_in restaurant_terms (lower (str_cell t))
   \<and> (classify_vertical t = ''grocery'')
       = (\<not> any_in restaurant_terms (lower (str_cell t))
          \<and> any_in grocery_terms (lower (str_cell t)))
   \<and> (classify_vertical t = ''retail'')
       = (\<not> any_in restaurant_terms (lower (str_cell t))
          \<and> \<not> any_in grocery_terms (lower (str_cell t))
          \<and> any_in retail_terms (lower (str_cell t)))
   \<and> (classify_vertical t = ''other'')
       = (\<not> any_in restaurant_terms (lower (str_cell t))
          \<and> \<not> any_in grocery_terms (lower (str_cell t))
          \<and> \<not> any_in retail_terms (lower (str_cell t)))
   \<and> (classify_vertical t = ''retail'')
       = (\<not> any_in restaurant_terms (lower (str_cell t))
          \<and> \<not> any_in grocery_terms (lower (str_cell t))
          \<and> sublist ''shopping'' (lower (str_cell t)))
   \<and> classify_vertical (Some ''clothing_store'') = ''grocery''
   \<and> classify_vertical (Some ''convenience_store'') = ''grocery''
   \<and> classify_vertical (Some ''shopping_mall'') = ''retail''
   \<and> vertical (engineer_row u g r) = classify_vertical (types r)"
proof -
  note fm = first_match [OF vertical_names_distinct,
      of "any_in restaurant_terms (lower (str_cell t))"
         "any_in grocery_terms (lower (str_cell t))"
         "any_in retail_terms (lower (str_cell t))",
      folded classify_vertical_def [unfolded Let_def, of t]]
  have r: "(classify_vertical t = ''retail'')
       = (\<not> any_in restaurant_terms (lower (str_cell t))
          \<and> \<not> any_in grocery_terms (lower (str_cell t))
          \<and> sublist ''shopping'' (lower (str_cell t)))"
    unfolding fm(3) using retail_after_grocery [of "lower (str_cell t)"] by blast
  show ?thesis
    using fm r classify_examples(1,2,3) engineer_row_fields(2) [of u g r] by blast
qed

subsection \<open>Cleaning\<close>

lemma split_on_length: "length (split_on sep s) = Suc (length (filter (\<lambda>c. c = sep) s))"
  by (induction s) (auto split: list.splits)

lemma fold_max_ge: "(x::nat) \<in> set xs \<Longrightarrow> x \<le> fold max xs m"
  unfolding Max.set_eq_fold [symmetric] by simp

lemma split_columns_comma:
  assumes "r \<in> set df" and "source_location r = Some s" and "CHR '','' \<in> set s"
  shows "1 < split_columns (location_split df)"
proof -
  have "filter (\<lambda>c. c = CHR '','') s \<noteq> []"
    using assms(3) by (simp add: filter_empty_conv)
  then have "2 \<le> length (split_on CHR '','' s)"
    unfolding split_on_length by (cases "filter (\<lambda>c. c = CHR '','') s") simp_all
  moreover have "length (split_on CHR '','' s)
      \<in> set (map (\<lambda>p. case p of None \<Rightarrow> 0 | Some ps \<Rightarrow> length ps) (location_split df))"
    using assms(1,2) by (force simp add: location_split_def)
  ultimately have "2 \<le> split_columns (location_split df)"
    unfolding split_columns_def using fold_max_ge order_trans by blast
  then show ?thesis by simp
qed

lemma convert_column_ok:
  "\<forall>c\<in>set cs. \<exists>x. f c = Inr x \<Longrightarrow>
   \<exists>xs. convert_column f cs = Inr xs \<and> length xs = length cs
     \<and> (\<forall>i<length cs. f (cs ! i) = Inr (xs ! i))"
proof (induction cs)
  case Nil
  show ?case by simp
next
  case (Cons c cs)
  from Cons.prems obtain x where x: "f c = Inr x" by auto
  from Cons obtain xs where xs: "convert_column f cs = Inr xs" "length xs = length cs"
      "\<forall>i<length cs. f (cs ! i) = Inr (xs ! i)"
    by auto
  have "\<forall>i<length (c # cs). f ((c # cs) ! i) = Inr ((x # xs) ! i)"
    using x xs(3) by (auto simp add: nth_Cons split: nat.splits)
  then show ?case
    using x xs(1,2) by simp
qed

lemma numeric_astype:
  "numeric c \<Longrightarrow> \<exists>x. astype_int c = Inr x"
  "numeric c \<Longrightarrow> \<exists>x. astype_float c = Inr x"
  by (cases c; simp)+

lemma clean_row_fields:
  "place_id (clean_row n r a b c) = place_id r"
  "rating (clean_row n r a b c) = Some b"
  "review_count (clean_row n r a b c) = Some a"
  "price_level (clean_row n r a b c) = Some c"
  "phone (clean_row n r a b c) = fillna [] (phone r)"
  "website (clean_row n r a b c) = fillna [] (website r)"
  "city (clean_row n r a b c)
     = split_column 0 (map_option (split_on CHR '','') (source_location r))"
  "state (clean_row n r a b c) =
     (if n > 1 then split_column 1 (map_option (split_on CHR '','') (source_location r))
      else Some [])"
  by (simp_all add: clean_row_def Let_def)

lemma fillna_default: "fillna d cell = Some (case cell of None \<Rightarrow> d | Some x \<Rightarrow> x)"
  by (simp add: fillna_def split: option.splits)

lemma city_null: "(city (clean_row n r a b c) = None) = (source_location r = None)"
  unfolding clean_row_fields
  by (cases "source_location r") (simp_all add: split_column_def split_on_length)

lemma state_not_null:
  assumes "source_location r = Some s" and "CHR '','' \<in> set s"
  shows "state (clean_row n r a b c) \<noteq> None"
proof -
  have "filter (\<lambda>c. c = CHR '','') s \<noteq> []"
    using assms(2) by (simp add: filter_empty_conv)
  then have "1 < length (split_on CHR '','' s)"
    unfolding split_on_length by (cases "filter (\<lambda>c. c = CHR '','') s") simp_all
  then show ?thesis
    unfolding clean_row_fields using assms(1) by (simp add: split_column_def)
qed

text \<open>
  Claim C8, as amended. For every input whose rating, review count and price level
  cells are numbers or missing, and in which at least one record has a source location,
  cleaning raises no error and returns exactly as many records as it was given: no
  record is dropped, with or without an identifier. Every cleaned record has a rating,
  a review count and a price level, the converted number or 0 where it was missing,
  and a phone and a website (the empty string where missing). The city is null exactly
  for a record without source location, and the region is not null for a record whose
  source location has a comma.
\<close>

theorem clean_keeps_every_record:
  assumes num: "\<forall>r\<in>set df. numeric (review_count r) \<and> numeric (rating r)
                   \<and> numeric (price_level r)"
    and loc: "\<exists>r\<in>set df. source_location r \<noteq> None"
  shows "\<exists>out. clean_data df = Inr out \<and> length out = length df
     \<and> (\<forall>i<length df.
          place_id (out ! i) = place_id (df ! i)
        \<and> (\<exists>x. rating (out ! i) = Some x \<and> astype_float (rating (df ! i)) = Inr x)
        \<and> (\<exists>n. review_count (out ! i) = Some n \<and> astype_int (review_count (df ! i)) = Inr n)
        \<and> (\<exists>n. price_level (out ! i) = Some n \<and> astype_int (price_level (df ! i)) = Inr n)
        \<and> (rating (df ! i) = NaN \<longrightarrow> rating (out ! i) = Some 0)
        \<and> (review_count (df ! i) = NaN \<longrightarrow> review_count (out ! i) = Some 0)
        \<and> (price_level (df ! i) = NaN \<longrightarrow> price_level (out ! i) = Some 0)
        \<and> phone (out ! i) = Some (case phone (df ! i) of None \<Rightarrow> [] | Some p \<Rightarrow> p)
        \<and> website (out ! i) = Some (case website (df ! i) of None \<Rightarrow> [] | Some u \<Rightarrow> u)
        \<and> (city (out ! i) = None) = (source_location (df ! i) = None)
        \<and> (\<forall>s. source_location (df ! i) = Some s \<and> CHR '','' \<in> set s
               \<longrightarrow> state (out ! i) \<noteq> None))"
proof -
  have "\<forall>c\<in>set (map review_count df). \<exists>x. astype_int c = Inr x"
    using num numeric_astype(1) by auto
  from convert_column_ok [OF this] obtain rcs where rcs:
    "convert_column astype_int (map review_count df) = Inr rcs" "length rcs = length df"
    "\<forall>i<length df. astype_int (review_count (df ! i)) = Inr (rcs ! i)"
    by auto
  have "\<forall>c\<in>set (map rating df). \<exists>x. astype_float c = Inr x"
    using num numeric_astype(2) by auto
  from convert_column_ok [OF this] obtain ras where ras:
    "convert_column astype_float (map rating df) = Inr ras" "length ras = length df"
    "\<forall>i<length df. astype_float (rating (df ! i)) = Inr (ras ! i)"
    by auto
  have "\<forall>c\<in>set (map price_level df). \<exists>x. astype_int c = Inr x"
    using num numeric_astype(1) by auto
  from convert_column_ok [OF this] obtain pls where pls:
    "convert_column astype_int (map price_level df) = Inr pls" "length pls = length df"
    "\<forall>i<length df. astype_int (price_level (df ! i)) = Inr (pls ! i)"
    by auto
  let ?n = "split_columns (location_split df)"
  let ?out = "map (\<lambda>i. clean_row ?n (df ! i) (rcs ! i) (ras ! i) (pls ! i)) [0..<length df]"
  have "\<not> list_all (\<lambda>r. source_location r = None) df"
    using loc by (auto simp add: list_all_iff)
  then have run: "clean_data df = Inr ?out"
    unfolding clean_data_def rcs(1) ras(1) pls(1) by simp
  have row: "place_id (?out ! i) = place_id (df ! i)
        \<and> (\<exists>x. rating (?out ! i) = Some x \<and> astype_float (rating (df ! i)) = Inr x)
        \<and> (\<exists>n. review_count (?out ! i) = Some n \<and> astype_int (review_count (df ! i)) = Inr n)
        \<and> (\<exists>n. price_level (?out ! i) = Some n \<and> astype_int (price_level (df ! i)) = Inr n)
        \<and> (rating (df ! i) = NaN \<longrightarrow> rating (?out ! i) = Some 0)
        \<and> (review_count (df ! i) = NaN \<longrightarrow> review_count (?out ! i) = Some 0)
        \<and> (price_level (df ! i) = NaN \<longrightarrow> price_level (?out ! i) = Some 0)
        \<and> phone (?out ! i) = Some (case phone (df ! i) of None \<Rightarrow> [] | Some p \<Rightarrow> p)
        \<and> website (?out ! i) = Some (case website (df ! i) of None \<Rightarrow> [] | Some u \<Rightarrow> u)
        \<and> (city (?out ! i) = None) = (source_location (df ! i) = None)
        \<and> (\<forall>s. source_location (df ! i) = Some s \<and> CHR '','' \<in> set s
               \<longrightarrow> state (?out ! i) \<noteq> None)" if i: "i < length df" for i
  proof -
    have nth: "?out ! i = clean_row ?n (df ! i) (rcs ! i) (ras ! i) (pls ! i)"
      using i by simp
    have c: "astype_int (review_count (df ! i)) = Inr (rcs ! i)"
        "astype_float (rating (df ! i)) = Inr (ras ! i)"
        "astype_int (price_level (df ! i)) = Inr (pls ! i)"
      using i rcs(3) ras(3) pls(3) by simp_all
    have z: "rating (df ! i) = NaN \<Longrightarrow> ras ! i = 0"
        "review_count (df ! i) = NaN \<Longrightarrow> rcs ! i = 0"
        "price_level (df ! i) = NaN \<Longrightarrow> pls ! i = 0"
      using c by simp_all
    show ?thesis
      unfolding nth city_null
      using state_not_null [of "df ! i" _ ?n] c z
      by (simp add: clean_row_fields(1-6) fillna_default)
  qed
  show ?thesis
    using run row by (intro exI [of _ ?out]) simp
qed

lemma raw_example_cleaned:
  "clean_data [raw_example] =
     Inr [\<lparr> place_id = None, name = Some ''Corner Pizza'', phone = Some [], website = Some [],
            types = Some ''restaurant,food'', source_location = Some ''San Francisco, CA'',
            rating = Some 0, review_count = Some 0, price_level = Some 0, fetched_at = 0,
            city = Some ''San Francisco'', state = Some ''CA'' \<rparr>]"
  by code_simp

lemma text_example_raises: "clean_data [text_example] = Inl ValueError"
  by (simp add: clean_data_def text_example_def)

theorem clean_keeps_every_record_witness:
  "\<exists>out. clean_data [raw_example] = Inr out \<and> length out = 1
      \<and> rating (out ! 0) = Some 0 \<and> city (out ! 0) \<noteq> None \<and> state (out ! 0) \<noteq> None"
proof -
  have n: "\<forall>r\<in>set [raw_example]. numeric (review_count r) \<and> numeric (rating r)
                   \<and> numeric (price_level r)"
    by (simp add: raw_example_def)
  have h: "\<exists>r\<in>set [raw_example]. source_location r \<noteq> None"
    by (simp add: raw_example_def)
  have s: "source_location ([raw_example] ! 0) = Some ''San Francisco, CA''"
     "rating ([raw_example] ! 0) = NaN"
    by (simp_all add: raw_example_def)
  have c: "CHR '','' \<in> set ''San Francisco, CA''"
    by code_simp
  from clean_keeps_every_record [OF n h] obtain out where o:
     "clean_data [raw_example] = Inr out"
     "length out = length [raw_example]"
     "rating ([raw_example] ! 0) = NaN \<longrightarrow> rating (out ! 0) = Some 0"
     "(city (out ! 0) = None) = (source_location ([raw_example] ! 0) = None)"
     "\<forall>s. source_location ([raw_example] ! 0) = Some s \<and> CHR '','' \<in> set s
               \<longrightarrow> state (out ! 0) \<noteq> None"
    by fastforce
  show ?thesis
    using o s c by (intro exI [of _ out]) simp
qed

text \<open>
  The claim as stated drops a record that lacks a usable identifier and raises no error
  for a malformed record. A record with no \<^verbatim>\<open>place_id\<close> is cleaned and kept, and a
  record whose review count is text makes the cleaning raise \<^verbatim>\<open>ValueError\<close>.
\<close>

theorem record_without_identifier_is_kept:
  "place_id raw_example = None
   \<and> clean_data [raw_example] =
     Inr [\<lparr> place_id = None, name = Some ''Corner Pizza'', phone = Some [], website = Some [],
            types = Some ''restaurant,food'', source_location = Some ''San Francisco, CA'',
            rating = Some 0, review_count = Some 0, price_level = Some 0, fetched_at = 0,
            city = Some ''San Francisco'', state = Some ''CA'' \<rparr>]
   \<and> review_count text_example = Text ''many''
   \<and> clean_data [text_example] = Inl ValueError"
  using raw_example_cleaned text_example_raises
  by (simp add: raw_example_def text_example_def)

subsection \<open>Loading and the run\<close>

lemma main_not_loaded:
  "load_latest_raw_data files = Inl e \<Longrightarrow>
   main files u g now = \<lparr> stages = [], outcome = Inl e \<rparr>"
  by (simp add: main_def)

lemma main_loaded:
  "load_latest_raw_data files = Inr df \<Longrightarrow>
   stages (main files u g now) \<noteq> [] \<and> hd (stages (main files u g now)) = Cleaner"
  by (simp add: main_def Let_def split: sum.splits option.splits)

text \<open>
  Claim C9, as amended. When there is no raw data file the loader raises
  \<^verbatim>\<open>FileNotFoundError\<close> before any stage is entered, and the run ends with that
  error and no output. In general the run ends before any stage, with the exception of
  the loader, exactly when the loader raises; a file that is read is handed to the
  cleaner.
\<close>

theorem no_raw_file_aborts_before_any_stage:
  "load_latest_raw_data [] = Inl FileNotFoundError
   \<and> main [] u g now = \<lparr> stages = [], outcome = Inl FileNotFoundError \<rparr>
   \<and> (case load_latest_raw_data files of
         Inl e \<Rightarrow> main files u g now = \<lparr> stages = [], outcome = Inl e \<rparr>
       | Inr df \<Rightarrow> stages (main files u g now) \<noteq> []
                  \<and> hd (stages (main files u g now)) = Cleaner)"
proof -
  have a: "load_latest_raw_data [] = Inl FileNotFoundError"
    by (simp add: load_latest_raw_data_def)
  have b: "case load_latest_raw_data files of
         Inl e \<Rightarrow> main files u g now = \<lparr> stages = [], outcome = Inl e \<rparr>
       | Inr df \<Rightarrow> stages (main files u g now) \<noteq> []
                  \<and> hd (stages (main files u g now)) = Cleaner"
    using main_not_loaded [of files _ u g now] main_loaded [of files _ u g now]
    by (cases "load_latest_raw_data files") simp_all
  show ?thesis
    using a main_not_loaded [OF a, of u g now] b by (intro conjI)
qed

text \<open>
  The claim as stated speaks of an empty input collection. A raw data file with a
  header line and no records is loaded without error and handed to the cleaner.
\<close>

theorem empty_raw_file_reaches_cleaner:
  "load_latest_raw_data [(''businesses_20240101_000000.csv'', Inr [])] = Inr []
   \<and> hd (stages (main [(''businesses_20240101_000000.csv'', Inr [])] always never 0)) = Cleaner
   \<and> stages (main [(''businesses_20240101_000000.csv'', Inr [])] always never 0) \<noteq> []
   \<and> outcome (main [(''businesses_20240101_000000.csv'', Inr [])] always never 0)
       \<noteq> Inl FileNotFoundError"
  by code_simp

subsection \<open>Segmentation\<close>

lemma head_take: "0 \<le> n \<Longrightarrow> head n xs = take (nat n) xs"
  by (simp add: head_def)

lemma head_length: "0 \<le> n \<Longrightarrow> int (length (head n xs)) \<le> n"
  by (simp add: head_take)

lemma head_all: "int (length xs) \<le> n \<Longrightarrow> head n xs = xs"
  by (simp add: head_def)

lemma head_subset: "0 \<le> n \<Longrightarrow> set (head n xs) \<subseteq> set xs"
  by (simp add: head_take set_take_subset)

lemma head_sorted: "0 \<le> n \<Longrightarrow> sorted_wrt P xs \<Longrightarrow> sorted_wrt P (head n xs)"
  by (simp add: head_take)

lemma vertical_frame_fst: "vertical_frame srt df vr = Some (v, out) \<Longrightarrow> v = fst vr"
  by (auto simp add: vertical_frame_def split: if_splits)

lemma vertical_frame_some_iff:
  "(\<exists>out. vertical_frame srt df vr = Some (v, out))
     = (fst vr = v \<and> filter (\<lambda>l. vertical l = v) df \<noteq> [])"
  by (auto simp add: vertical_frame_def)

lemma filter_loop_eq:
  "distinct (map fst rules) \<Longrightarrow> fst ` set acc \<inter> fst ` set rules = {} \<Longrightarrow>
   filter_loop srt rules df acc = acc @ List.map_filter (vertical_frame srt df) rules"
proof (induction rules arbitrary: acc)
  case Nil
  show ?case by simp
next
  case (Cons vr rules)
  obtain v r where vr: "vr = (v, r)" by (cases vr)
  have fresh: "v \<notin> fst ` set acc" and later: "v \<notin> fst ` set rules"
    and d: "distinct (map fst rules)"
    using Cons.prems by (auto simp add: vr)
  show ?case
  proof (cases "filter (\<lambda>l. vertical l = v) df = []")
    case True
    have "fst ` set acc \<inter> fst ` set rules = {}" using Cons.prems(2) by auto
    from Cons.IH [OF d this] True show ?thesis
      by (simp add: vr vertical_frame_def)
  next
    case False
    let ?out = "head (target_count r)
        (srt (filter (\<lambda>l. lead_score l \<ge> min_score r) (filter (\<lambda>l. vertical l = v) df)))"
    have "fst ` set (acc @ [(v, ?out)]) \<inter> fst ` set rules = {}"
      using Cons.prems(2) later by auto
    from Cons.IH [OF d this] False fresh show ?thesis
      by (simp add: vr vertical_frame_def update_fresh Let_def)
  qed
qed

lemma apply_vertical_filters_eq:
  "distinct (map fst rules) \<Longrightarrow>
   apply_vertical_filters srt rules df = List.map_filter (vertical_frame srt df) rules"
  using filter_loop_eq [of rules "[]" srt df] by (simp add: apply_vertical_filters_def)

lemma map_filter_mem:
  "(y \<in> set (List.map_filter f xs)) = (\<exists>x\<in>set xs. f x = Some y)"
  by (induction xs) (auto split: option.splits)

lemma map_filter_keys:
  assumes "\<And>x y. f x = Some y \<Longrightarrow> fst y = fst x"
  shows "map fst (List.map_filter f xs) = map fst (filter (\<lambda>x. f x \<noteq> None) xs)"
  using assms by (induction xs) (auto split: option.splits)

lemma result_keys_distinct:
  assumes "distinct (map fst rules)"
  shows "distinct (map fst (apply_vertical_filters srt rules df))"
proof -
  have "map fst (List.map_filter (vertical_frame srt df) rules)
      = map fst (filter (\<lambda>x. vertical_frame srt df x \<noteq> None) rules)"
    by (rule map_filter_keys) (auto simp add: vertical_frame_def split: if_splits)
  then show ?thesis
    unfolding apply_vertical_filters_eq [OF assms]
    using assms by (simp add: distinct_map_filter)
qed

lemma frame_props:
  assumes perm: "\<forall>xs. mset (srt xs) = mset xs"
    and sorted: "\<forall>xs. sorted_wrt (\<ge>) (map lead_score (srt xs))"
    and n: "0 \<le> target_count r"
    and f: "vertical_frame srt df (v, r) = Some (w, out)"
  shows "w = v" and "int (length out) \<le> target_count r"
    and "\<forall>l\<in>set out. min_score r \<le> lead_score l \<and> vertical l = v \<and> l \<in> set df"
    and "sorted_wrt (\<ge>) (map lead_score out)"
    and "\<exists>l\<in>set df. vertical l = v"
proof -
  let ?xs = "filter (\<lambda>l. lead_score l \<ge> min_score r) (filter (\<lambda>l. vertical l = v) df)"
  have out: "out = head (target_count r) (srt ?xs)" and w: "w = v"
    and ne: "filter (\<lambda>l. vertical l = v) df \<noteq> []"
    using f by (auto simp add: vertical_frame_def split: if_splits)
  show "w = v" by (rule w)
  show "int (length out) \<le> target_count r"
    unfolding out by (rule head_length [OF n])
  have "set (srt ?xs) = set ?xs"
    using perm mset_eq_setD by blast
  then have "set out \<subseteq> set ?xs"
    unfolding out using head_subset [OF n, of "srt ?xs"] by simp
  then show "\<forall>l\<in>set out. min_score r \<le> lead_score l \<and> vertical l = v \<and> l \<in> set df"
    by auto
  have "sorted_wrt (\<ge>) (map lead_score (take (nat (target_count r)) (srt ?xs)))"
    unfolding take_map [symmetric] using sorted by simp
  then show "sorted_wrt (\<ge>) (map lead_score out)"
    unfolding out head_take [OF n] .
  show "\<exists>l\<in>set df. vertical l = v"
    using ne by (simp add: filter_empty_conv)
qed

lemma stable_sort_perm: "\<forall>xs. mset (stable_sort_values xs) = mset xs"
  by (simp add: stable_sort_values_def)

lemma descending_iff:
  "sorted_wrt (\<ge>) (map lead_score xs) = sorted (map (\<lambda>l. - lead_score l) xs)"
  by (simp add: sorted_map sorted_wrt_map)

lemma stable_sort_sorted: "\<forall>xs. sorted_wrt (\<ge>) (map lead_score (stable_sort_values xs))"
  unfolding descending_iff stable_sort_values_def by simp

lemma stable_sort_keeps:
  "\<forall>xs. sorted_wrt (\<ge>) (map lead_score xs) \<longrightarrow> stable_sort_values xs = xs"
  unfolding descending_iff stable_sort_values_def by (simp add: sort_key_id_if_sorted)

lemma rules_distinct: "distinct (map fst VERTICAL_RULES)"
  by code_simp

lemma rules_counts: "\<forall>(v, r)\<in>set VERTICAL_RULES. 0 \<le> target_count r"
  by (simp add: VERTICAL_RULES_def)

lemma vertical_score_lead: "vertical (score_lead w now row) = vertical row"
  by (simp add: score_lead_def Let_def split_beta featured.defs scored.defs)

lemma example_verticals:
  "vertical lead_example = ''restaurants''" "vertical plain_example = ''grocery''"
  by (simp_all add: lead_example_def plain_example_def)

lemma plain_example_score: "fst (score_row SCORING_WEIGHTS plain_example) = 20"
  by (simp add: score_row_eq review_points_def gt_cell_def SCORING_WEIGHTS_def
      plain_example_def lead_example_def)

lemma name_tests:
  "(''restaurants'' = ''grocery'') = False" "(''restaurants'' = ''retail'') = False"
  "(''grocery'' = ''restaurants'') = False" "(''grocery'' = ''retail'') = False"
  by code_simp+

lemma top_segments:
  "apply_vertical_filters stable_sort_values VERTICAL_RULES
     [score_lead SCORING_WEIGHTS 10 lead_example]
     = [(''restaurants'', [score_lead SCORING_WEIGHTS 10 lead_example])]"
  by (subst apply_vertical_filters_eq [OF rules_distinct])
    (simp add: VERTICAL_RULES_def vertical_frame_def vertical_score_lead example_verticals name_tests
      score_lead_fields lead_example_score stable_sort_values_def head_def)

lemma plain_segments:
  "apply_vertical_filters stable_sort_values VERTICAL_RULES
     [score_lead SCORING_WEIGHTS 10 plain_example] = [(''grocery'', [])]"
  by (subst apply_vertical_filters_eq [OF rules_distinct])
    (simp add: VERTICAL_RULES_def vertical_frame_def vertical_score_lead example_verticals name_tests
      score_lead_fields plain_example_score stable_sort_values_def head_def)

lemma empty_segments:
  "apply_vertical_filters srt rules [] = []"
  unfolding apply_vertical_filters_def by (induction rules) auto

text \<open>
  Claim C6. Let the rules have pairwise different verticals and non-negative target
  counts, and let the sort return a permutation of its input in descending order of
  score. Then every vertical of the result has a rule, holds at most the target count of
  leads, each of them a lead of the input with that vertical and a score of at least the
  minimum score, in descending order of score. A vertical is in the result exactly when
  it has a rule and some lead of the input has that vertical; so a vertical with no
  lead is left out of the result, and the function has no failing branch.
\<close>

theorem segments_are_capped_filtered_sorted:
  assumes d: "distinct (map fst rules)"
    and perm: "\<forall>xs. mset (sort_values xs) = mset xs"
    and sorted: "\<forall>xs. sorted_wrt (\<ge>) (map lead_score (sort_values xs))"
    and n: "\<forall>(v, r)\<in>set rules. 0 \<le> target_count r"
  shows "(\<forall>v out. (v, out) \<in> set (apply_vertical_filters sort_values rules df) \<longrightarrow>
           (\<exists>r. map_of rules v = Some r \<and> int (length out) \<le> target_count r
              \<and> (\<forall>l\<in>set out. min_score r \<le> lead_score l \<and> vertical l = v \<and> l \<in> set df)
              \<and> sorted_wrt (\<ge>) (map lead_score out)))
       \<and> (\<forall>v. (v \<in> fst ` set (apply_vertical_filters sort_values rules df))
              = (v \<in> fst ` set rules \<and> (\<exists>l\<in>set df. vertical l = v)))
       \<and> distinct (map fst (apply_vertical_filters sort_values rules df))"
proof (intro conjI allI impI)
  fix v out
  assume "(v, out) \<in> set (apply_vertical_filters sort_values rules df)"
  then obtain vr where vr: "vr \<in> set rules" "vertical_frame sort_values df vr = Some (v, out)"
    unfolding apply_vertical_filters_eq [OF d] map_filter_mem by blast
  obtain v' r where p: "vr = (v', r)" by (cases vr)
  have tc: "0 \<le> target_count r" using n vr(1) p by auto
  note fp = frame_props [OF perm sorted tc vr(2) [unfolded p]]
  have "map_of rules v = Some r"
    using d vr(1) p fp(1) by simp
  then show "\<exists>r. map_of rules v = Some r \<and> int (length out) \<le> target_count r
              \<and> (\<forall>l\<in>set out. min_score r \<le> lead_score l \<and> vertical l = v \<and> l \<in> set df)
              \<and> sorted_wrt (\<ge>) (map lead_score out)"
    using fp(2,3,4) unfolding fp(1) by blast
next
  fix v
  have "(v \<in> fst ` set (List.map_filter (vertical_frame sort_values df) rules))
      = (\<exists>vr\<in>set rules. \<exists>out. vertical_frame sort_values df vr = Some (v, out))"
  proof
    assume "v \<in> fst ` set (List.map_filter (vertical_frame sort_values df) rules)"
    then obtain out where "(v, out) \<in> set (List.map_filter (vertical_frame sort_values df) rules)"
      by force
    then show "\<exists>vr\<in>set rules. \<exists>out. vertical_frame sort_values df vr = Some (v, out)"
      unfolding map_filter_mem by blast
  next
    assume "\<exists>vr\<in>set rules. \<exists>out. vertical_frame sort_values df vr = Some (v, out)"
    then obtain out where "(v, out) \<in> set (List.map_filter (vertical_frame sort_values df) rules)"
      unfolding map_filter_mem by blast
    then show "v \<in> fst ` set (List.map_filter (vertical_frame sort_values df) rules)"
      by force
  qed
  also have "\<dots> = (\<exists>vr\<in>set rules. fst vr = v \<and> filter (\<lambda>l. vertical l = v) df \<noteq> [])"
    unfolding vertical_frame_some_iff ..
  also have "\<dots> = (v \<in> fst ` set rules \<and> (\<exists>l\<in>set df. vertical l = v))"
    unfolding filter_empty_conv by force
  finally show "(v \<in> fst ` set (apply_vertical_filters sort_values rules df))
      = (v \<in> fst ` set rules \<and> (\<exists>l\<in>set df. vertical l = v))"
    unfolding apply_vertical_filters_eq [OF d] .
next
  show "distinct (map fst (apply_vertical_filters sort_values rules df))"
    by (rule result_keys_distinct [OF d])
qed

theorem segments_are_capped_filtered_sorted_witness:
  "(''restaurants'', [score_lead SCORING_WEIGHTS 10 lead_example])
     \<in> set (apply_vertical_filters stable_sort_values VERTICAL_RULES
          [score_lead SCORING_WEIGHTS 10 lead_example])
   \<and> (\<exists>r. map_of VERTICAL_RULES ''restaurants'' = Some r
        \<and> int (length [score_lead SCORING_WEIGHTS 10 lead_example]) \<le> target_count r
        \<and> (\<forall>l\<in>set [score_lead SCORING_WEIGHTS 10 lead_example].
              min_score r \<le> lead_score l \<and> vertical l = ''restaurants''))"
proof -
  define top where "top = score_lead SCORING_WEIGHTS 10 lead_example"
  define name where "name = ''restaurants''"
  define S where "S = apply_vertical_filters stable_sort_values VERTICAL_RULES [top]"
  have mem: "(name, [top]) \<in> set S"
    unfolding S_def top_def name_def top_segments by simp
  have all: "\<forall>v out. (v, out) \<in> set S \<longrightarrow>
           (\<exists>r. map_of VERTICAL_RULES v = Some r \<and> int (length out) \<le> target_count r
              \<and> (\<forall>l\<in>set out. min_score r \<le> lead_score l \<and> vertical l = v \<and> l \<in> set [top])
              \<and> sorted_wrt (\<ge>) (map lead_score out))"
    unfolding S_def
    using segments_are_capped_filtered_sorted [OF rules_distinct stable_sort_perm stable_sort_sorted rules_counts, of "[top]"]
    by (rule conjunct1)
  from all mem have "\<exists>r. map_of VERTICAL_RULES name = Some r
        \<and> int (length [top]) \<le> target_count r
        \<and> (\<forall>l\<in>set [top]. min_score r \<le> lead_score l \<and> vertical l = name)"
    by blast
  with mem show ?thesis
    unfolding S_def top_def name_def by (rule conjI)
qed

subsection \<open>Running the segmentation on its own result\<close>

lemma head_set: "set (head n xs) \<subseteq> set xs"
  by (simp add: head_def set_take_subset)

lemma frame_vertical:
  assumes perm: "\<forall>xs. mset (srt xs) = mset xs"
    and f: "vertical_frame srt df (v, r) = Some p"
  shows "\<forall>l\<in>set (snd p). vertical l = v"
proof -
  let ?xs = "filter (\<lambda>l. lead_score l \<ge> min_score r) (filter (\<lambda>l. vertical l = v) df)"
  have out: "snd p = head (target_count r) (srt ?xs)"
    using f by (auto simp add: vertical_frame_def split: if_splits)
  have "set (srt ?xs) = set ?xs"
    using perm mset_eq_setD by blast
  then have "set (snd p) \<subseteq> set ?xs"
    unfolding out using head_set [of "target_count r" "srt ?xs"] by simp
  then show ?thesis by auto
qed

lemma flatten_Cons: "flatten (p # ps) = snd p @ flatten ps"
  by (simp add: flatten_def)

lemma filter_flatten:
  assumes perm: "\<forall>xs. mset (srt xs) = mset xs"
  shows "distinct (map fst rs) \<Longrightarrow>
     filter (\<lambda>l. vertical l = v) (flatten (List.map_filter (vertical_frame srt df) rs))
       = (case map_of rs v of None \<Rightarrow> []
          | Some r \<Rightarrow> (case vertical_frame srt df (v, r) of None \<Rightarrow> [] | Some p \<Rightarrow> snd p))"
proof (induction rs)
  case Nil
  show ?case by (simp add: flatten_def)
next
  case (Cons wr rs)
  obtain w r where wr: "wr = (w, r)" by (cases wr)
  have d: "distinct (map fst rs)" and fresh: "w \<notin> fst ` set rs"
    using Cons.prems by (auto simp add: wr)
  note IH = Cons.IH [OF d]
  have none: "map_of rs w = None"
    using fresh by (simp add: map_of_eq_None_iff)
  show ?case
  proof (cases "vertical_frame srt df (w, r)")
    case None
    show ?thesis
    proof (cases "w = v")
      case True
      then show ?thesis using None IH none by (simp add: wr)
    next
      case False
      then show ?thesis using None IH by (simp add: wr)
    qed
  next
    case (Some p)
    note vs = frame_vertical [OF perm Some]
    show ?thesis
    proof (cases "w = v")
      case True
      have "filter (\<lambda>l. vertical l = v) (snd p) = snd p"
        using vs True by (simp add: filter_id_conv)
      then show ?thesis using Some IH none True by (simp add: wr flatten_Cons)
    next
      case False
      have "filter (\<lambda>l. vertical l = v) (snd p) = []"
        using vs False by (simp add: filter_empty_conv)
      then show ?thesis using Some IH False by (simp add: wr flatten_Cons)
    qed
  qed
qed

lemma second_pass_frame:
  assumes d: "distinct (map fst rules)"
    and perm: "\<forall>xs. mset (srt xs) = mset xs"
    and sorted: "\<forall>xs. sorted_wrt (\<ge>) (map lead_score (srt xs))"
    and n: "0 \<le> target_count r"
    and mem: "(v, r) \<in> set rules"
  shows "vertical_frame srt (flatten (apply_vertical_filters srt rules df)) (v, r)
       = (case vertical_frame srt df (v, r) of None \<Rightarrow> None
          | Some p \<Rightarrow> if snd p \<noteq> [] then Some (fst p, srt (snd p)) else None)"
proof -
  have m: "map_of rules v = Some r"
    using d mem by simp
  have dv: "filter (\<lambda>l. vertical l = v) (flatten (apply_vertical_filters srt rules df))
      = (case vertical_frame srt df (v, r) of None \<Rightarrow> [] | Some p \<Rightarrow> snd p)"
    unfolding apply_vertical_filters_eq [OF d] filter_flatten [OF perm d] m by simp
  show ?thesis
  proof (cases "vertical_frame srt df (v, r)")
    case None
    then show ?thesis using dv by (simp add: vertical_frame_def)
  next
    case (Some p)
    obtain w out where p: "p = (w, out)" by (cases p)
    note fp = frame_props [OF perm sorted n Some [unfolded p]]
    have dv': "filter (\<lambda>l. vertical l = v) (flatten (apply_vertical_filters srt rules df)) = out"
      using dv Some p by simp
    have keep: "filter (\<lambda>l. lead_score l \<ge> min_score r) out = out"
      using fp(3) by (simp add: filter_id_conv)
    have "length (srt out) = length out"
      using perm mset_eq_length by blast
    then have all: "head (target_count r) (srt out) = srt out"
      using fp(2) by (intro head_all) simp
    show ?thesis
      unfolding Some by (simp add: vertical_frame_def dv' keep all p fp(1))
  qed
qed

lemma map_filter_cong_set:
  "(\<And>x. x \<in> set xs \<Longrightarrow> f x = g x) \<Longrightarrow> List.map_filter f xs = List.map_filter g xs"
  by (induction xs) (auto split: option.splits)

lemma map_filter_then:
  "map h (filter P (List.map_filter f xs))
     = List.map_filter (\<lambda>x. case f x of None \<Rightarrow> None
                               | Some y \<Rightarrow> if P y then Some (h y) else None) xs"
  by (induction xs) (auto split: option.splits)

lemma second_pass:
  assumes d: "distinct (map fst rules)"
    and perm: "\<forall>xs. mset (srt xs) = mset xs"
    and sorted: "\<forall>xs. sorted_wrt (\<ge>) (map lead_score (srt xs))"
    and n: "\<forall>(v, r)\<in>set rules. 0 \<le> target_count r"
  shows "apply_vertical_filters srt rules (flatten (apply_vertical_filters srt rules df))
       = map (\<lambda>p. (fst p, srt (snd p)))
           (filter (\<lambda>p. snd p \<noteq> []) (apply_vertical_filters srt rules df))"
proof -
  have "List.map_filter
          (vertical_frame srt (flatten (apply_vertical_filters srt rules df))) rules
      = List.map_filter (\<lambda>x. case vertical_frame srt df x of None \<Rightarrow> None
           | Some p \<Rightarrow> if snd p \<noteq> [] then Some (fst p, srt (snd p)) else None) rules"
  proof (rule map_filter_cong_set)
    fix x assume x: "x \<in> set rules"
    obtain v r where p: "x = (v, r)" by (cases x)
    have "0 \<le> target_count r" using n x p by auto
    from second_pass_frame [OF d perm sorted this x [unfolded p]]
    show "vertical_frame srt (flatten (apply_vertical_filters srt rules df)) x
        = (case vertical_frame srt df x of None \<Rightarrow> None
           | Some p \<Rightarrow> if snd p \<noteq> [] then Some (fst p, srt (snd p)) else None)"
      unfolding p .
  qed
  then show ?thesis
    unfolding apply_vertical_filters_eq [OF d] map_filter_then .
qed

lemma descending_unique:
  assumes "mset xs = mset ys" and "sorted_wrt (\<ge>) xs" and "sorted_wrt (\<ge>) (ys :: int list)"
  shows "xs = ys"
proof -
  have "sorted (rev xs)" "sorted (rev ys)"
    using assms(2,3) by (simp_all add: sorted_wrt_rev)
  moreover have "mset (rev xs) = mset (rev ys)"
    using assms(1) by simp
  ultimately have "rev xs = rev ys"
    using properties_for_sort [of "rev xs" "rev ys"] sort_key_id_if_sorted [of "\<lambda>x. x" "rev ys"]
    by simp
  then show ?thesis by simp
qed

text \<open>
  Claim C7, as amended. Let the rules have pairwise different verticals and non-negative
  target counts, let the sort return a permutation of its input in descending order of
  score, and let every vertical of the first result hold at least one lead. Then the
  segmentation of the flattened result has the same verticals in the same order, and
  each vertical holds the same leads with the same sequence of scores. When the sort
  leaves an input that is already in descending order as it is, which a stable sort
  does, the second result is the first one.
\<close>

theorem resegmenting_keeps_segments:
  assumes d: "distinct (map fst rules)"
    and perm: "\<forall>xs. mset (sort_values xs) = mset xs"
    and sorted: "\<forall>xs. sorted_wrt (\<ge>) (map lead_score (sort_values xs))"
    and n: "\<forall>(v, r)\<in>set rules. 0 \<le> target_count r"
    and ne: "\<forall>(v, out)\<in>set (apply_vertical_filters sort_values rules df). out \<noteq> []"
  shows "map fst (apply_vertical_filters sort_values rules
                   (flatten (apply_vertical_filters sort_values rules df)))
           = map fst (apply_vertical_filters sort_values rules df)
       \<and> (\<forall>i<length (apply_vertical_filters sort_values rules df).
            mset (snd (apply_vertical_filters sort_values rules
                   (flatten (apply_vertical_filters sort_values rules df)) ! i))
              = mset (snd (apply_vertical_filters sort_values rules df ! i))
          \<and> map lead_score (snd (apply_vertical_filters sort_values rules
                   (flatten (apply_vertical_filters sort_values rules df)) ! i))
              = map lead_score (snd (apply_vertical_filters sort_values rules df ! i)))
       \<and> ((\<forall>xs. sorted_wrt (\<ge>) (map lead_score xs) \<longrightarrow> sort_values xs = xs) \<longrightarrow>
            apply_vertical_filters sort_values rules
                   (flatten (apply_vertical_filters sort_values rules df))
              = apply_vertical_filters sort_values rules df)"
proof -
  let ?S = "apply_vertical_filters sort_values rules df"
  let ?S' = "apply_vertical_filters sort_values rules (flatten ?S)"
  have "filter (\<lambda>p. snd p \<noteq> []) ?S = ?S"
    using ne by (auto simp add: filter_id_conv)
  then have eq: "?S' = map (\<lambda>p. (fst p, sort_values (snd p))) ?S"
    using second_pass [OF d perm sorted n, of df] by simp
  have frame_sorted: "sorted_wrt (\<ge>) (map lead_score (snd p))" if "p \<in> set ?S" for p
  proof -
    obtain v out where p: "p = (v, out)" by (cases p)
    from that obtain vr where vr: "vr \<in> set rules"
        "vertical_frame sort_values df vr = Some (v, out)"
      unfolding p apply_vertical_filters_eq [OF d] map_filter_mem by blast
    obtain v' r where q: "vr = (v', r)" by (cases vr)
    have "0 \<le> target_count r" using n vr(1) q by auto
    from frame_props(4) [OF perm sorted this vr(2) [unfolded q]] show ?thesis
      by (simp add: p)
  qed
  have keys: "map fst ?S' = map fst ?S"
    unfolding eq by (simp add: comp_def)
  have rows: "mset (snd (?S' ! i)) = mset (snd (?S ! i))
      \<and> map lead_score (snd (?S' ! i)) = map lead_score (snd (?S ! i))"
    if "i < length ?S" for i
  proof -
    have nth: "snd (?S' ! i) = sort_values (snd (?S ! i))"
      unfolding eq using that by simp
    have m: "mset (sort_values (snd (?S ! i))) = mset (snd (?S ! i))"
      using perm by blast
    have "mset (map lead_score (sort_values (snd (?S ! i))))
        = mset (map lead_score (snd (?S ! i)))"
      using m by simp
    moreover have "sorted_wrt (\<ge>) (map lead_score (sort_values (snd (?S ! i))))"
      using sorted by blast
    moreover have "sorted_wrt (\<ge>) (map lead_score (snd (?S ! i)))"
      using frame_sorted that by simp
    ultimately have "map lead_score (sort_values (snd (?S ! i)))
        = map lead_score (snd (?S ! i))"
      by (rule descending_unique)
    then show ?thesis
      unfolding nth using m by simp
  qed
  have same: "?S' = ?S" if "\<forall>xs. sorted_wrt (\<ge>) (map lead_score xs) \<longrightarrow> sort_values xs = xs"
  proof -
    have "map (\<lambda>p. (fst p, sort_values (snd p))) ?S = map (\<lambda>p. p) ?S"
    proof (rule map_cong [OF refl])
      fix p assume "p \<in> set ?S"
      then have "sort_values (snd p) = snd p"
        using frame_sorted that by blast
      then show "(fst p, sort_values (snd p)) = p" by simp
    qed
    then show ?thesis unfolding eq by simp
  qed
  show ?thesis
    using keys rows same by blast
qed

theorem resegmenting_keeps_segments_witness:
  "apply_vertical_filters stable_sort_values VERTICAL_RULES
     (flatten (apply_vertical_filters stable_sort_values VERTICAL_RULES
        [score_lead SCORING_WEIGHTS 10 lead_example]))
   = apply_vertical_filters stable_sort_values VERTICAL_RULES
        [score_lead SCORING_WEIGHTS 10 lead_example]"
proof -
  have ne: "\<forall>(v, out)\<in>set (apply_vertical_filters stable_sort_values VERTICAL_RULES
        [score_lead SCORING_WEIGHTS 10 lead_example]). out \<noteq> []"
    unfolding top_segments by simp
  note t = resegmenting_keeps_segments [OF rules_distinct stable_sort_perm stable_sort_sorted rules_counts ne]
  show ?thesis
    by (rule mp [OF conjunct2 [OF conjunct2 [OF t]] stable_sort_keeps])
qed

text \<open>
  The claim as stated holds for every lead set. A single grocery lead with a score of
  20, below the minimum score of 60, gives a result with an empty grocery frame; the
  segmentation of the flattened result, which has no lead, leaves grocery out.
\<close>

theorem resegmenting_drops_empty_vertical:
  "apply_vertical_filters stable_sort_values VERTICAL_RULES
     [score_lead SCORING_WEIGHTS 10 plain_example] = [(''grocery'', [])]
   \<and> apply_vertical_filters stable_sort_values VERTICAL_RULES
       (flatten (apply_vertical_filters stable_sort_values VERTICAL_RULES
          [score_lead SCORING_WEIGHTS 10 plain_example])) = []
   \<and> apply_vertical_filters stable_sort_values VERTICAL_RULES
       (flatten (apply_vertical_filters stable_sort_values VERTICAL_RULES
          [score_lead SCORING_WEIGHTS 10 plain_example]))
     \<noteq> apply_vertical_filters stable_sort_values VERTICAL_RULES
          [score_lead SCORING_WEIGHTS 10 plain_example]"
proof -
  have f: "flatten [(''grocery'', [])] = []"
    by (simp add: flatten_def)
  show ?thesis
    unfolding plain_segments f empty_segments by simp
qed

end
